theory Spec2Isabelle
  imports Main
begin

section \<open>Data model\<close>

text \<open>
  The backend keeps its data in relational tables reached through an ORM. A table is
  modelled as the list of its rows in insertion order, a row as a record of its columns.
  Status columns are strings, as in the source. The \<open>createdAt\<close> timestamps are set by
  the datastore, take part in no decision of the modelled operations and are left out.
\<close>

text \<open>
  The error classes of the HTTP boundary. The source answers with status codes; each
  early return of a route is one of these classes: 400 for malformed input is
  \<open>ValidationError\<close>, 404 is \<open>NotFoundError\<close>, 403 is \<open>ForbiddenError\<close>, 401 is
  \<open>AuthError\<close>, 500 is \<open>InternalError\<close>; a refusal because of the state of a record
  (answered 409 by some routes and 400 by others) is \<open>ConflictError\<close>.
\<close>

datatype error =
  ValidationError | NotFoundError | ConflictError | ForbiddenError | AuthError | InternalError

record animal =
  animal_id :: nat
  animal_type :: string
  animal_name :: string
  animal_city :: string
  animal_age :: int
  animal_breed :: string
  animal_description :: "string option"
  animal_status :: string

text \<open>
  A row of table \<open>adopt\<close>. Column \<open>user\<close> is the free-text column in which the admin
  route stores its comment.
\<close>

record adopt =
  adopt_id :: nat
  adopt_userid :: nat
  adopt_animalid :: nat
  adopt_firstname :: string
  adopt_lastname :: string
  adopt_phone :: string
  adopt_status :: string
  adopt_user :: "string option"

text \<open>
  The part of the datastore the animal and adoption routes work on. The two counters are
  the autoincrement sequences of the primary keys: an id is handed out once and never
  reused.
\<close>

record db =
  animals :: "animal list"
  adopts :: "adopt list"
  next_animal_id :: nat
  next_adopt_id :: nat

definition init_db :: db where
  "init_db = \<lparr>animals = [], adopts = [], next_animal_id = 1, next_adopt_id = 1\<rparr>"

record donation =
  donation_id :: nat
  donation_userid :: "nat option"
  donation_email :: string
  donation_status :: "string option"

record user =
  user_id :: nat
  user_firstname :: string
  user_lastname :: string
  user_email :: string
  user_password :: string
  user_phone :: "string option"
  user_role :: "string option"

section \<open>Helpers of the host language\<close>

text \<open>
  \<open>String.prototype.trim\<close> on the characters of the model: the ASCII white space and
  line terminators and the no-break space.
\<close>

definition is_space :: "char \<Rightarrow> bool" where
  "is_space c \<longleftrightarrow>
     c \<in> set [CHR 0x09, CHR 0x0A, CHR 0x0B, CHR 0x0C, CHR 0x0D, CHR 0x20, CHR 0xA0]"

definition trim :: "string \<Rightarrow> string" where
  "trim s = rev (dropWhile is_space (rev (dropWhile is_space s)))"

text \<open>\<open>x || null\<close> on an optional string: the empty string is falsy.\<close>

definition or_null :: "string option \<Rightarrow> string option" where
  "or_null x = (case x of None \<Rightarrow> None | Some v \<Rightarrow> (if v = [] then None else Some v))"

text \<open>\<open>x || d\<close> on an optional string with a string default.\<close>

definition or_default :: "string option \<Rightarrow> string \<Rightarrow> string" where
  "or_default x d = (case x of None \<Rightarrow> d | Some v \<Rightarrow> (if v = [] then d else v))"

text \<open>\<open>String.prototype.toLowerCase\<close> on the ASCII letters.\<close>

definition lower_char :: "char \<Rightarrow> char" where
  "lower_char c =
     (if (65::nat) \<le> of_char c \<and> of_char c \<le> (90::nat)
      then char_of (of_char c + (32::nat)) else c)"

definition toLowerCase :: "string \<Rightarrow> string" where
  "toLowerCase s = map lower_char s"

section \<open>Datastore primitives\<close>

definition findUnique_animal :: "nat \<Rightarrow> animal list \<Rightarrow> animal option" where
  "findUnique_animal k rows = find (\<lambda>a. animal_id a = k) rows"

definition findUnique_adopt :: "nat \<Rightarrow> adopt list \<Rightarrow> adopt option" where
  "findUnique_adopt k rows = find (\<lambda>r. adopt_id r = k) rows"

definition findUnique_donation :: "nat \<Rightarrow> donation list \<Rightarrow> donation option" where
  "findUnique_donation k rows = find (\<lambda>d. donation_id d = k) rows"

text \<open>\<open>count\<close> with a \<open>where\<close> clause.\<close>

definition count_where :: "('a \<Rightarrow> bool) \<Rightarrow> 'a list \<Rightarrow> nat" where
  "count_where P rows = length (filter P rows)"

text \<open>\<open>update\<close> and \<open>updateMany\<close> write the given columns of the selected rows.\<close>

definition update_where :: "('a \<Rightarrow> bool) \<Rightarrow> ('a \<Rightarrow> 'a) \<Rightarrow> 'a list \<Rightarrow> 'a list" where
  "update_where P f rows = map (\<lambda>r. if P r then f r else r) rows"

definition delete_where :: "('a \<Rightarrow> bool) \<Rightarrow> 'a list \<Rightarrow> 'a list" where
  "delete_where P rows = filter (\<lambda>r. \<not> P r) rows"

section \<open>Donations: DELETE /admin/donations/:id\<close>

text \<open>
  The route parameter is parsed with \<open>parseInt\<close>; \<open>None\<close> stands for the result
  \<open>NaN\<close>. A completed donation is refused with status 400 and its message, a refusal
  because of the state of the record.
\<close>

definition delete_donation :: "nat option \<Rightarrow> donation list \<Rightarrow> (error + unit) \<times> donation list" where
  "delete_donation idParam ds =
     (case idParam of
        None \<Rightarrow> (Inl ValidationError, ds)
      | Some donationId \<Rightarrow>
          (case findUnique_donation donationId ds of
             None \<Rightarrow> (Inl NotFoundError, ds)
           | Some donation \<Rightarrow>
               if donation_status donation = Some ''completed'' then (Inl ConflictError, ds)
               else (Inr (), delete_where (\<lambda>d. donation_id d = donationId) ds)))"

section \<open>Animal service\<close>

text \<open>
  The errors the animal service throws, one constructor for each message; the routes map
  them to status codes. \<open>DatabaseError\<close> is an exception of the datastore client.
\<close>

datatype service_error =
  AnimalNotFound | PendingAdoptions | AlreadyAdopted | InvalidStatus | MissingFields
  | InvalidAge | DatabaseError

record animal_data =
  ad_type :: string
  ad_name :: string
  ad_city :: string
  ad_age :: int
  ad_breed :: string
  ad_description :: "string option"

record update_data =
  ud_type :: "string option"
  ud_name :: "string option"
  ud_city :: "string option"
  ud_age :: "int option"
  ud_breed :: "string option"
  ud_description :: "string option"
  ud_status :: "string option"

definition createAnimal :: "animal_data \<Rightarrow> db \<Rightarrow> (service_error + animal) \<times> db" where
  "createAnimal animalData s =
     (if ad_type animalData = [] \<or> ad_name animalData = [] \<or> ad_city animalData = []
         \<or> ad_breed animalData = []
      then (Inl MissingFields, s)
      else if ad_age animalData \<le> 0 then (Inl InvalidAge, s)
      else
        let animal = \<lparr>animal_id = next_animal_id s,
                      animal_type = trim (ad_type animalData),
                      animal_name = trim (ad_name animalData),
                      animal_city = trim (ad_city animalData),
                      animal_age = ad_age animalData,
                      animal_breed = trim (ad_breed animalData),
                      animal_description = or_null (map_option trim (ad_description animalData)),
                      animal_status = ''available''\<rparr>
        in (Inr animal,
            s\<lparr>animals := animals s @ [animal], next_animal_id := Suc (next_animal_id s)\<rparr>))"

definition validStatuses :: "string list" where
  "validStatuses = [''available'', ''adopted'', ''pending'']"

definition cleanUpdateData :: "update_data \<Rightarrow> animal \<Rightarrow> animal" where
  "cleanUpdateData updateData a =
     a\<lparr>animal_type := (case ud_type updateData of None \<Rightarrow> animal_type a | Some v \<Rightarrow> trim v),
       animal_name := (case ud_name updateData of None \<Rightarrow> animal_name a | Some v \<Rightarrow> trim v),
       animal_city := (case ud_city updateData of None \<Rightarrow> animal_city a | Some v \<Rightarrow> trim v),
       animal_age := (case ud_age updateData of None \<Rightarrow> animal_age a | Some v \<Rightarrow> v),
       animal_breed := (case ud_breed updateData of None \<Rightarrow> animal_breed a | Some v \<Rightarrow> trim v),
       animal_description :=
         (case ud_description updateData of
            None \<Rightarrow> animal_description a | Some v \<Rightarrow> or_null (Some (trim v))),
       animal_status := (case ud_status updateData of None \<Rightarrow> animal_status a | Some v \<Rightarrow> v)\<rparr>"

definition updateAnimal :: "nat \<Rightarrow> update_data \<Rightarrow> db \<Rightarrow> (service_error + animal) \<times> db" where
  "updateAnimal animalId updateData s =
     (case findUnique_animal animalId (animals s) of
        None \<Rightarrow> (Inl AnimalNotFound, s)
      | Some existingAnimal \<Rightarrow>
          if (case ud_age updateData of None \<Rightarrow> False | Some v \<Rightarrow> v \<le> 0)
          then (Inl InvalidAge, s)
          else if (case ud_status updateData of
                     None \<Rightarrow> False | Some v \<Rightarrow> v \<notin> set validStatuses)
          then (Inl InvalidStatus, s)
          else (Inr (cleanUpdateData updateData existingAnimal),
                s\<lparr>animals := update_where (\<lambda>a. animal_id a = animalId)
                                (cleanUpdateData updateData) (animals s)\<rparr>))"

text \<open>
  Modelled from the spec: the relational schema, which fixes what the datastore does with
  the rows of \<open>adopt\<close> that reference a deleted animal, is not among the sources. The
  spec says that deleting an animal with no pending request succeeds even with rejected or
  approved requests in its history, so the deletion is not refused because of them; it is
  modelled as removing the animal's row together with the requests that reference it, so
  that a request never outlives its animal.
\<close>

definition delete_animal_row :: "nat \<Rightarrow> db \<Rightarrow> db" where
  "delete_animal_row animalId s =
     s\<lparr>animals := delete_where (\<lambda>a. animal_id a = animalId) (animals s),
       adopts := delete_where (\<lambda>r. adopt_animalid r = animalId) (adopts s)\<rparr>"

definition deleteAnimal :: "nat \<Rightarrow> db \<Rightarrow> (service_error + unit) \<times> db" where
  "deleteAnimal animalId s =
     (case findUnique_animal animalId (animals s) of
        None \<Rightarrow> (Inl AnimalNotFound, s)
      | Some existingAnimal \<Rightarrow>
          let pendingAdoptions =
                filter (\<lambda>adoption. adopt_status adoption = ''pending'')
                  (filter (\<lambda>r. adopt_animalid r = animalId) (adopts s))
          in if length pendingAdoptions > 0 then (Inl PendingAdoptions, s)
             else (Inr (), delete_animal_row animalId s))"

definition markAsAdopted :: "nat \<Rightarrow> db \<Rightarrow> (service_error + animal) \<times> db" where
  "markAsAdopted animalId s =
     (case findUnique_animal animalId (animals s) of
        None \<Rightarrow> (Inl AnimalNotFound, s)
      | Some animal \<Rightarrow>
          if animal_status animal = ''adopted'' then (Inl AlreadyAdopted, s)
          else (Inr (animal\<lparr>animal_status := ''adopted''\<rparr>),
                s\<lparr>animals := update_where (\<lambda>a. animal_id a = animalId)
                                (\<lambda>a. a\<lparr>animal_status := ''adopted''\<rparr>) (animals s)\<rparr>))"

definition markAsAvailable :: "nat \<Rightarrow> db \<Rightarrow> (service_error + animal) \<times> db" where
  "markAsAvailable animalId s =
     (case findUnique_animal animalId (animals s) of
        None \<Rightarrow> (Inl AnimalNotFound, s)
      | Some animal \<Rightarrow>
          (Inr (animal\<lparr>animal_status := ''available''\<rparr>),
           s\<lparr>animals := update_where (\<lambda>a. animal_id a = animalId)
                           (\<lambda>a. a\<lparr>animal_status := ''available''\<rparr>) (animals s)\<rparr>))"

section \<open>Animal and adoption routes\<close>

text \<open>
  DELETE /animals/:id parses the id, calls the service and maps the messages of the
  errors it catches: not found to 404, pending adoption requests to 409, anything else
  to 500.
\<close>

definition delete_animal_route :: "nat option \<Rightarrow> db \<Rightarrow> (error + unit) \<times> db" where
  "delete_animal_route idParam s =
     (case idParam of
        None \<Rightarrow> (Inl ValidationError, s)
      | Some animalId \<Rightarrow>
          (case deleteAnimal animalId s of
             (Inr result, s') \<Rightarrow> (Inr result, s')
           | (Inl AnimalNotFound, s') \<Rightarrow> (Inl NotFoundError, s')
           | (Inl PendingAdoptions, s') \<Rightarrow> (Inl ConflictError, s')
           | (Inl _, s') \<Rightarrow> (Inl InternalError, s')))"

text \<open>
  POST /adoptions. The user id comes from the verified token. A missing or falsy field of
  the body (the number 0, the empty string) is answered 400; an animal that is not
  available is answered 400 with its message, a refusal because of the animal's state;
  an active request of the same user for the same animal is answered 409.
\<close>

definition create_adoption ::
    "nat \<Rightarrow> nat \<Rightarrow> string \<Rightarrow> string \<Rightarrow> string \<Rightarrow> db \<Rightarrow> (error + adopt) \<times> db" where
  "create_adoption userId animalId firstname lastname phone s =
     (if animalId = 0 \<or> firstname = [] \<or> lastname = [] \<or> phone = []
      then (Inl ValidationError, s)
      else
        (case findUnique_animal animalId (animals s) of
           None \<Rightarrow> (Inl NotFoundError, s)
         | Some animal \<Rightarrow>
             if animal_status animal \<noteq> ''available'' then (Inl ConflictError, s)
             else
               (case find (\<lambda>r. adopt_userid r = userId \<and> adopt_animalid r = animalId
                               \<and> adopt_status r \<in> set [''pending'', ''approved''])
                       (adopts s) of
                  Some existingAdoption \<Rightarrow> (Inl ConflictError, s)
                | None \<Rightarrow>
                    let adoption = \<lparr>adopt_id = next_adopt_id s,
                                    adopt_userid = userId,
                                    adopt_animalid = animalId,
                                    adopt_firstname = trim firstname,
                                    adopt_lastname = trim lastname,
                                    adopt_phone = trim phone,
                                    adopt_status = ''pending'',
                                    adopt_user = None\<rparr>
                    in (Inr adoption,
                        s\<lparr>adopts := adopts s @ [adoption],
                          next_adopt_id := Suc (next_adopt_id s)\<rparr>))))"

text \<open>
  DELETE /adoption/:id, the requester's own cancellation. A request that is not pending
  is answered 400 with its message, a refusal because of the request's state.
\<close>

definition cancel_adoption :: "nat \<Rightarrow> nat option \<Rightarrow> db \<Rightarrow> (error + unit) \<times> db" where
  "cancel_adoption userId idParam s =
     (case idParam of
        None \<Rightarrow> (Inl ValidationError, s)
      | Some adoptionId \<Rightarrow>
          (case findUnique_adopt adoptionId (adopts s) of
             None \<Rightarrow> (Inl NotFoundError, s)
           | Some adoption \<Rightarrow>
               if adopt_userid adoption \<noteq> userId then (Inl ForbiddenError, s)
               else if adopt_status adoption \<noteq> ''pending'' then (Inl ConflictError, s)
               else (Inr (),
                     s\<lparr>adopts := delete_where (\<lambda>r. adopt_id r = adoptionId) (adopts s)\<rparr>)))"

text \<open>DELETE /admin/adoptions/:id.\<close>

definition admin_delete_adoption :: "nat option \<Rightarrow> db \<Rightarrow> (error + unit) \<times> db" where
  "admin_delete_adoption idParam s =
     (case idParam of
        None \<Rightarrow> (Inl ValidationError, s)
      | Some adoptionId \<Rightarrow>
          (case findUnique_adopt adoptionId (adopts s) of
             None \<Rightarrow> (Inl NotFoundError, s)
           | Some existingAdoption \<Rightarrow>
               (Inr (),
                s\<lparr>adopts := delete_where (\<lambda>r. adopt_id r = adoptionId) (adopts s)\<rparr>)))"

text \<open>
  The comment written to the requests that an approval rejects; the accented letters are
  the two bytes of their UTF-8 encoding.
\<close>

definition auto_reject_comment :: string where
  "auto_reject_comment =
     ''Rejet'' @ [CHR 0xC3, CHR 0xA9] @ '' automatiquement - animal adopt''
     @ [CHR 0xC3, CHR 0xA9] @ '' par un autre utilisateur''"

text \<open>
  The callback of the transaction of PUT /admin/adoptions/:id. It works on the store
  \<open>s\<close> and returns the updated request with the new store, or \<open>None\<close> when a statement
  throws: updating an animal that does not exist, or reading the status of the absent
  animal of the loaded request. The caller then keeps the store it had (rollback).
\<close>

definition decide_transaction ::
    "nat \<Rightarrow> string \<Rightarrow> string option \<Rightarrow> adopt \<Rightarrow> animal option \<Rightarrow> db \<Rightarrow> (adopt \<times> db) option" where
  "decide_transaction adoptionId status adminComment existingAdoption existingAnimal s =
     (let write = (\<lambda>r. r\<lparr>adopt_status := status, adopt_user := or_null adminComment\<rparr>);
          updatedAdoption = write existingAdoption;
          s1 = s\<lparr>adopts := update_where (\<lambda>r. adopt_id r = adoptionId) write (adopts s)\<rparr>;
          approved =
            (if status = ''approved'' then
               (case findUnique_animal (adopt_animalid existingAdoption) (animals s1) of
                  None \<Rightarrow> None
                | Some a \<Rightarrow>
                    Some (s1\<lparr>animals :=
                               update_where
                                 (\<lambda>a. animal_id a = adopt_animalid existingAdoption)
                                 (\<lambda>a. a\<lparr>animal_status := ''adopted''\<rparr>) (animals s1),
                             adopts :=
                               update_where
                                 (\<lambda>r. adopt_animalid r = adopt_animalid existingAdoption
                                      \<and> adopt_id r \<noteq> adoptionId
                                      \<and> adopt_status r = ''pending'')
                                 (\<lambda>r. r\<lparr>adopt_status := ''rejected'',
                                         adopt_user := Some auto_reject_comment\<rparr>)
                                 (adopts s1)\<rparr>))
             else Some s1)
      in case approved of
           None \<Rightarrow> None
         | Some s2 \<Rightarrow>
             if status = ''rejected'' then
               (case existingAnimal of
                  None \<Rightarrow> None
                | Some animal \<Rightarrow>
                    if animal_status animal = ''pending'' then
                      (let otherPendingAdoptions =
                             count_where
                               (\<lambda>r. adopt_animalid r = adopt_animalid existingAdoption
                                    \<and> adopt_id r \<noteq> adoptionId
                                    \<and> adopt_status r = ''pending'')
                               (adopts s2)
                       in if otherPendingAdoptions = 0 then
                            Some (updatedAdoption,
                                  s2\<lparr>animals :=
                                       update_where
                                         (\<lambda>a. animal_id a = adopt_animalid existingAdoption)
                                         (\<lambda>a. a\<lparr>animal_status := ''available''\<rparr>)
                                         (animals s2)\<rparr>)
                          else Some (updatedAdoption, s2))
                    else Some (updatedAdoption, s2))
             else Some (updatedAdoption, s2))"

text \<open>
  PUT /admin/adoptions/:id, the admin's decision. The loaded request carries its animal
  (\<open>include: animal\<close>). An exception inside the transaction is answered 500.
\<close>

definition decide :: "nat option \<Rightarrow> string \<Rightarrow> string option \<Rightarrow> db \<Rightarrow> (error + adopt) \<times> db" where
  "decide idParam status adminComment s =
     (case idParam of
        None \<Rightarrow> (Inl ValidationError, s)
      | Some adoptionId \<Rightarrow>
          if status \<notin> set [''pending'', ''approved'', ''rejected'']
          then (Inl ValidationError, s)
          else
            (case findUnique_adopt adoptionId (adopts s) of
               None \<Rightarrow> (Inl NotFoundError, s)
             | Some existingAdoption \<Rightarrow>
                 (case decide_transaction adoptionId status adminComment existingAdoption
                         (findUnique_animal (adopt_animalid existingAdoption) (animals s)) s of
                    None \<Rightarrow> (Inl InternalError, s)
                  | Some (result, s') \<Rightarrow> (Inr result, s'))))"

section \<open>Authentication service: login\<close>

definition ADMIN_EMAILS :: "string list" where
  "ADMIN_EMAILS = [''admin@adaopte.com'', ''manager@adaopte.com'']"

definition determineUserRole :: "string \<Rightarrow> string" where
  "determineUserRole email =
     (if toLowerCase email \<in> set ADMIN_EMAILS then ''admin'' else ''user'')"

text \<open>
  The payload of the token. Signing it is the work of the JWT library and is left out:
  the token is modelled as the payload it carries.
\<close>

record token =
  token_userId :: nat
  token_email :: string
  token_role :: string

definition generateToken :: "nat \<Rightarrow> string \<Rightarrow> string \<Rightarrow> token" where
  "generateToken userId email role =
     \<lparr>token_userId = userId, token_email = email, token_role = role\<rparr>"

text \<open>The user object of the response (the row without its password).\<close>

record user_view =
  view_id :: nat
  view_firstname :: string
  view_lastname :: string
  view_email :: string
  view_phone :: "string option"
  view_role :: "string option"

text \<open>
  \<open>AuthService.login\<close>. The comparison of a password with a stored hash is the work
  of the hashing library and is a parameter. Both failures throw the same error, which
  the route answers 401. The stored role is compared with the role the email gives, a
  string, so an absent role always differs.
\<close>

definition login ::
    "(string \<Rightarrow> string \<Rightarrow> bool) \<Rightarrow> string \<Rightarrow> string \<Rightarrow> user list
       \<Rightarrow> (error + user_view \<times> token) \<times> user list" where
  "login comparePassword email password us =
     (case find (\<lambda>u. user_email u = email) us of
        None \<Rightarrow> (Inl AuthError, us)
      | Some user \<Rightarrow>
          if \<not> comparePassword password (user_password user) then (Inl AuthError, us)
          else
            let expectedRole = determineUserRole email;
                us' = (if Some expectedRole \<noteq> user_role user
                       then update_where (\<lambda>u. user_id u = user_id user)
                              (\<lambda>u. u\<lparr>user_role := Some expectedRole\<rparr>) us
                       else us);
                token = generateToken (user_id user) (user_email user)
                          (or_default (user_role user) ''user'')
            in (Inr (\<lparr>view_id = user_id user,
                       view_firstname = user_firstname user,
                       view_lastname = user_lastname user,
                       view_email = user_email user,
                       view_phone = user_phone user,
                       view_role = user_role user\<rparr>, token),
                us'))"

section \<open>Runs of the animal and adoption operations\<close>

text \<open>
  The operations that write the animal and adoption tables. A route parameter that does
  not parse and a failed operation leave the store as it is, so an operation is a
  function on stores. The animal operations are taken at the service; their routes
  only refuse more inputs before calling it.
\<close>

datatype operation =
    CreateAnimal animal_data
  | UpdateAnimal nat update_data
  | DeleteAnimal nat
  | MarkAsAdopted nat
  | MarkAsAvailable nat
  | CreateAdoption nat nat string string string
  | CancelAdoption nat nat
  | Decide nat string "string option"
  | AdminDeleteAdoption nat

fun step :: "operation \<Rightarrow> db \<Rightarrow> db" where
  "step (CreateAnimal d) s = snd (createAnimal d s)"
| "step (UpdateAnimal k u) s = snd (updateAnimal k u s)"
| "step (DeleteAnimal k) s = snd (delete_animal_route (Some k) s)"
| "step (MarkAsAdopted k) s = snd (markAsAdopted k s)"
| "step (MarkAsAvailable k) s = snd (markAsAvailable k s)"
| "step (CreateAdoption u k f l p) s = snd (create_adoption u k f l p s)"
| "step (CancelAdoption u k) s = snd (cancel_adoption u (Some k) s)"
| "step (Decide k st c) s = snd (decide (Some k) st c s)"
| "step (AdminDeleteAdoption k) s = snd (admin_delete_adoption (Some k) s)"

definition run :: "operation list \<Rightarrow> db \<Rightarrow> db" where
  "run os s = foldl (\<lambda>t o'. step o' t) s os"

inductive reachable :: "db \<Rightarrow> bool" where
  reachable_init: "reachable init_db"
| reachable_step: "reachable s \<Longrightarrow> reachable (step o' s)"

text \<open>The number of requests for an animal that have a given status.\<close>

definition requests_with :: "string \<Rightarrow> nat \<Rightarrow> db \<Rightarrow> nat" where
  "requests_with st animalId s =
     count_where (\<lambda>r. adopt_animalid r = animalId \<and> adopt_status r = st) (adopts s)"

text \<open>
  The invariant of the data model: an animal is adopted if and only if exactly one
  request for it is approved.
\<close>

definition adopted_iff_one_approved :: "db \<Rightarrow> bool" where
  "adopted_iff_one_approved s \<longleftrightarrow>
     list_all (\<lambda>a. (animal_status a = ''adopted'')
                    = (requests_with ''approved'' (animal_id a) s = 1))
       (animals s)"

text \<open>
  The operations that stay inside the guarded workflow: every operation but the manual
  overrides of an animal's status (mark as adopted, mark as available, an update that
  sets the status), the admin's deletion of an approved request, and a decision that is
  not an approval or a rejection of a pending request.
\<close>

fun guarded :: "db \<Rightarrow> operation \<Rightarrow> bool" where
  "guarded s (UpdateAnimal k u) = (ud_status u = None)"
| "guarded s (MarkAsAdopted k) = False"
| "guarded s (MarkAsAvailable k) = False"
| "guarded s (Decide k st c) =
     (st \<in> set [''approved'', ''rejected''] \<and>
      (case findUnique_adopt k (adopts s) of
         None \<Rightarrow> True | Some r \<Rightarrow> adopt_status r = ''pending''))"
| "guarded s (AdminDeleteAdoption k) =
     (case findUnique_adopt k (adopts s) of
        None \<Rightarrow> True | Some r \<Rightarrow> adopt_status r \<noteq> ''approved'')"
| "guarded s _ = True"

inductive reachable_guarded :: "db \<Rightarrow> bool" where
  guarded_init: "reachable_guarded init_db"
| guarded_step: "reachable_guarded s \<Longrightarrow> guarded s o' \<Longrightarrow> reachable_guarded (step o' s)"

text \<open>
  What the guarded workflow keeps true of an animal, given the numbers of approved and
  of pending requests for it: an adopted animal has exactly one approved request and no
  pending one; any other animal is available and has no approved request.
\<close>

definition workflow_ok :: "string \<Rightarrow> nat \<Rightarrow> nat \<Rightarrow> bool" where
  "workflow_ok st approved pending \<longleftrightarrow>
     (st = ''adopted'' \<and> approved = 1 \<and> pending = 0) \<or> (st = ''available'' \<and> approved = 0)"

text \<open>
  The invariant of the store under the guarded workflow: primary keys are distinct and
  below their sequences, a request references an animal id that has been handed out, and
  every animal is in one of the two situations above.
\<close>

definition store_inv :: "db \<Rightarrow> bool" where
  "store_inv s \<longleftrightarrow>
     distinct (map adopt_id (adopts s)) \<and>
     distinct (map animal_id (animals s)) \<and>
     (\<forall>r\<in>set (adopts s). adopt_id r < next_adopt_id s \<and> adopt_animalid r < next_animal_id s) \<and>
     (\<forall>a\<in>set (animals s). animal_id a < next_animal_id s) \<and>
     (\<forall>a\<in>set (animals s).
        workflow_ok (animal_status a) (requests_with ''approved'' (animal_id a) s)
          (requests_with ''pending'' (animal_id a) s))"

text \<open>A list of operations each of which is guarded in the store it is applied to.\<close>

fun all_guarded :: "operation list \<Rightarrow> db \<Rightarrow> bool" where
  "all_guarded [] s = True"
| "all_guarded (o' # os) s = (guarded s o' \<and> all_guarded os (step o' s))"

section \<open>Scenario data\<close>

definition rex :: animal_data where
  "rex = \<lparr>ad_type = ''chien'', ad_name = ''Rex'', ad_city = ''Paris'', ad_age = 3,
          ad_breed = ''Beagle'', ad_description = None\<rparr>"

text \<open>
  One available animal and two pending requests for it, of users 10 and 11: the store
  after the admin created the animal and both users applied.
\<close>

definition two_pending :: db where
  "two_pending =
     \<lparr>animals = [\<lparr>animal_id = 1, animal_type = ''chien'', animal_name = ''Rex'',
                   animal_city = ''Paris'', animal_age = 3, animal_breed = ''Beagle'',
                   animal_description = None, animal_status = ''available''\<rparr>],
      adopts = [\<lparr>adopt_id = 1, adopt_userid = 10, adopt_animalid = 1,
                  adopt_firstname = ''Ada'', adopt_lastname = ''Lovelace'',
                  adopt_phone = ''0102030405'', adopt_status = ''pending'',
                  adopt_user = None\<rparr>,
                \<lparr>adopt_id = 2, adopt_userid = 11, adopt_animalid = 1,
                  adopt_firstname = ''Alan'', adopt_lastname = ''Turing'',
                  adopt_phone = ''0504030201'', adopt_status = ''pending'',
                  adopt_user = None\<rparr>],
      next_animal_id = 2, next_adopt_id = 3\<rparr>"

definition setup_two_pending :: "operation list" where
  "setup_two_pending =
     [CreateAnimal rex,
      CreateAdoption 10 1 ''Ada'' ''Lovelace'' ''0102030405'',
      CreateAdoption 11 1 ''Alan'' ''Turing'' ''0504030201'']"

definition after_approval :: db where
  "after_approval = run [Decide 1 ''approved'' None] two_pending"

definition after_rejection :: db where
  "after_rejection = run [Decide 1 ''rejected'' None] two_pending"

definition status_only :: "string \<Rightarrow> update_data" where
  "status_only st =
     \<lparr>ud_type = None, ud_name = None, ud_city = None, ud_age = None, ud_breed = None,
      ud_description = None, ud_status = Some st\<rparr>"

text \<open>
  An animal that the admin has set to status pending by an update, with one pending
  request.
\<close>

definition reserved_db :: db where
  "reserved_db =
     run [CreateAnimal rex, CreateAdoption 10 1 ''Ada'' ''Lovelace'' ''0102030405'',
          UpdateAnimal 1 (status_only ''pending'')] init_db"

text \<open>
  Two user rows: one without a stored role, one whose email is on the admin list while
  its stored role is user. The password check is taken to succeed.
\<close>

definition bob :: user where
  "bob = \<lparr>user_id = 1, user_firstname = ''Bob'', user_lastname = ''Martin'',
          user_email = ''bob@example.com'', user_password = ''hash1'', user_phone = None,
          user_role = None\<rparr>"

definition alice :: user where
  "alice = \<lparr>user_id = 2, user_firstname = ''Alice'', user_lastname = ''Durand'',
            user_email = ''admin@adaopte.com'', user_password = ''hash2'',
            user_phone = Some ''0611223344'', user_role = Some ''user''\<rparr>"

definition accept_password :: "string \<Rightarrow> string \<Rightarrow> bool" where
  "accept_password password hash \<longleftrightarrow> True"

section \<open>Properties\<close>

lemma find_Some_mem: "find P xs = Some x \<Longrightarrow> x \<in> set xs \<and> P x"
  by (induction xs) (auto split: if_splits)

lemma find_filter_none: "find P (filter (\<lambda>r. \<not> P r) xs) = None"
  by (induction xs) auto

subsection \<open>Deleting a donation\<close>

text \<open>
  Claim C8. Deleting a donation fails with NotFound when no donation has the id; it
  fails with Conflict and leaves the table as it is when the donation's status is
  completed; a donation with any other status is deleted: the table loses exactly the
  rows with that id, and no donation with the id can be found afterwards.
\<close>

theorem delete_donation_guard:
  "(findUnique_donation k ds = None \<longrightarrow> delete_donation (Some k) ds = (Inl NotFoundError, ds)) \<and>
   (\<forall>d. findUnique_donation k ds = Some d \<and> donation_status d = Some ''completed'' \<longrightarrow>
        delete_donation (Some k) ds = (Inl ConflictError, ds)) \<and>
   (\<forall>d. findUnique_donation k ds = Some d \<and> donation_status d \<noteq> Some ''completed'' \<longrightarrow>
        delete_donation (Some k) ds = (Inr (), filter (\<lambda>x. donation_id x \<noteq> k) ds) \<and>
        findUnique_donation k (snd (delete_donation (Some k) ds)) = None)"
  by (auto simp: delete_donation_def delete_where_def findUnique_donation_def find_filter_none)

theorem delete_donation_guard_witness:
  "delete_donation (Some 1)
     [\<lparr>donation_id = 1, donation_userid = None, donation_email = ''a@b.c'',
       donation_status = Some ''completed''\<rparr>,
      \<lparr>donation_id = 2, donation_userid = Some 4, donation_email = ''d@e.f'',
       donation_status = Some ''pending''\<rparr>]
   = (Inl ConflictError,
     [\<lparr>donation_id = 1, donation_userid = None, donation_email = ''a@b.c'',
       donation_status = Some ''completed''\<rparr>,
      \<lparr>donation_id = 2, donation_userid = Some 4, donation_email = ''d@e.f'',
       donation_status = Some ''pending''\<rparr>])
   \<and> delete_donation (Some 2)
     [\<lparr>donation_id = 1, donation_userid = None, donation_email = ''a@b.c'',
       donation_status = Some ''completed''\<rparr>,
      \<lparr>donation_id = 2, donation_userid = Some 4, donation_email = ''d@e.f'',
       donation_status = Some ''pending''\<rparr>]
   = (Inr (),
     [\<lparr>donation_id = 1, donation_userid = None, donation_email = ''a@b.c'',
       donation_status = Some ''completed''\<rparr>])
   \<and> delete_donation (Some 3)
     [\<lparr>donation_id = 1, donation_userid = None, donation_email = ''a@b.c'',
       donation_status = Some ''completed''\<rparr>]
   = (Inl NotFoundError,
     [\<lparr>donation_id = 1, donation_userid = None, donation_email = ''a@b.c'',
       donation_status = Some ''completed''\<rparr>])"
  using delete_donation_guard [of 1 "[\<lparr>donation_id = 1, donation_userid = None, donation_email = ''a@b.c'',
       donation_status = Some ''completed''\<rparr>,
      \<lparr>donation_id = 2, donation_userid = Some 4, donation_email = ''d@e.f'',
       donation_status = Some ''pending''\<rparr>]"]
    delete_donation_guard [of 2 "[\<lparr>donation_id = 1, donation_userid = None, donation_email = ''a@b.c'',
       donation_status = Some ''completed''\<rparr>,
      \<lparr>donation_id = 2, donation_userid = Some 4, donation_email = ''d@e.f'',
       donation_status = Some ''pending''\<rparr>]"]
    delete_donation_guard [of 3 "[\<lparr>donation_id = 1, donation_userid = None, donation_email = ''a@b.c'',
       donation_status = Some ''completed''\<rparr>]"]
  by (simp add: findUnique_donation_def)

lemma find_None_iff_all: "find P xs = None \<longleftrightarrow> (\<forall>x\<in>set xs. \<not> P x)"
  by (induction xs) auto

lemma two_pending_reached: "run setup_two_pending init_db = two_pending"
  by code_simp

subsection \<open>Creating an adoption request\<close>

text \<open>
  Claim C4. A call that creates an adoption request for (userId, animalId), with the
  required fields of the body present, fails with NotFound if no animal has the id;
  fails with Conflict if the animal's status is not available; fails with Conflict if
  the animal exists and a request of the same user for the same animal is pending or
  approved; otherwise (in particular when the user's earlier requests for the animal
  were all rejected) it inserts a request with status pending under a fresh id. In every
  case the table of animals is left as it was.
\<close>

theorem create_adoption_contract:
  assumes "animalId \<noteq> 0" and "firstname \<noteq> []" and "lastname \<noteq> []" and "phone \<noteq> []"
  shows
    "(findUnique_animal animalId (animals s) = None \<longrightarrow>
        create_adoption userId animalId firstname lastname phone s = (Inl NotFoundError, s)) \<and>
     (\<forall>a. findUnique_animal animalId (animals s) = Some a \<and> animal_status a \<noteq> ''available'' \<longrightarrow>
        create_adoption userId animalId firstname lastname phone s = (Inl ConflictError, s)) \<and>
     (\<forall>a r. findUnique_animal animalId (animals s) = Some a \<and> r \<in> set (adopts s) \<and>
           adopt_userid r = userId \<and> adopt_animalid r = animalId \<and>
           (adopt_status r = ''pending'' \<or> adopt_status r = ''approved'') \<longrightarrow>
        create_adoption userId animalId firstname lastname phone s = (Inl ConflictError, s)) \<and>
     (\<forall>a. findUnique_animal animalId (animals s) = Some a \<and> animal_status a = ''available'' \<and>
          (\<forall>r\<in>set (adopts s). adopt_userid r = userId \<and> adopt_animalid r = animalId \<longrightarrow>
              adopt_status r \<noteq> ''pending'' \<and> adopt_status r \<noteq> ''approved'') \<longrightarrow>
        create_adoption userId animalId firstname lastname phone s =
          (Inr \<lparr>adopt_id = next_adopt_id s, adopt_userid = userId, adopt_animalid = animalId,
                adopt_firstname = trim firstname, adopt_lastname = trim lastname,
                adopt_phone = trim phone, adopt_status = ''pending'', adopt_user = None\<rparr>,
           s\<lparr>adopts := adopts s @
                  [\<lparr>adopt_id = next_adopt_id s, adopt_userid = userId, adopt_animalid = animalId,
                    adopt_firstname = trim firstname, adopt_lastname = trim lastname,
                    adopt_phone = trim phone, adopt_status = ''pending'', adopt_user = None\<rparr>],
              next_adopt_id := Suc (next_adopt_id s)\<rparr>)) \<and>
     animals (snd (create_adoption userId animalId firstname lastname phone s)) = animals s"
  using assms
  by (auto simp: create_adoption_def Let_def find_None_iff_all split: option.splits
        dest: find_Some_mem)

text \<open>
  The contract on the scenario stores: an unknown animal, an adopted animal, a second
  request while the first is pending, and a new request after the first was rejected.
\<close>

theorem create_adoption_contract_witness:
  "create_adoption 12 5 ''Grace'' ''Hopper'' ''0607080910'' two_pending
     = (Inl NotFoundError, two_pending) \<and>
   create_adoption 12 1 ''Grace'' ''Hopper'' ''0607080910'' after_approval
     = (Inl ConflictError, after_approval) \<and>
   create_adoption 10 1 ''Ada'' ''Lovelace'' ''0102030405'' two_pending
     = (Inl ConflictError, two_pending) \<and>
   fst (create_adoption 10 1 ''Ada'' ''Lovelace'' ''0102030405'' after_rejection)
     = Inr \<lparr>adopt_id = 3, adopt_userid = 10, adopt_animalid = 1, adopt_firstname = ''Ada'',
            adopt_lastname = ''Lovelace'', adopt_phone = ''0102030405'',
            adopt_status = ''pending'', adopt_user = None\<rparr> \<and>
   animals (snd (create_adoption 10 1 ''Ada'' ''Lovelace'' ''0102030405'' after_rejection))
     = animals after_rejection"
proof -
  have fields: "(5::nat) \<noteq> 0" "(1::nat) \<noteq> 0" "''Grace'' \<noteq> []" "''Hopper'' \<noteq> []"
    "''0607080910'' \<noteq> []" "''Ada'' \<noteq> []" "''Lovelace'' \<noteq> []" "''0102030405'' \<noteq> []"
    by simp_all
  note unknown = create_adoption_contract
    [of 5 "''Grace''" "''Hopper''" "''0607080910''" two_pending 12, OF fields(1,3,4,5)]
  note adopted = create_adoption_contract
    [of 1 "''Grace''" "''Hopper''" "''0607080910''" after_approval 12, OF fields(2,3,4,5)]
  note again = create_adoption_contract
    [of 1 "''Ada''" "''Lovelace''" "''0102030405''" after_rejection 10, OF fields(2,6,7,8)]
  have h1: "findUnique_animal 5 (animals two_pending) = None"
    by code_simp
  have h2: "findUnique_animal 1 (animals after_approval)
              = Some \<lparr>animal_id = 1, animal_type = ''chien'', animal_name = ''Rex'',
                      animal_city = ''Paris'', animal_age = 3, animal_breed = ''Beagle'',
                      animal_description = None, animal_status = ''adopted''\<rparr>"
    by code_simp
  have h3: "create_adoption 10 1 ''Ada'' ''Lovelace'' ''0102030405'' two_pending
              = (Inl ConflictError, two_pending)"
    by code_simp
  have h4: "fst (create_adoption 10 1 ''Ada'' ''Lovelace'' ''0102030405'' after_rejection)
     = Inr \<lparr>adopt_id = 3, adopt_userid = 10, adopt_animalid = 1, adopt_firstname = ''Ada'',
            adopt_lastname = ''Lovelace'', adopt_phone = ''0102030405'',
            adopt_status = ''pending'', adopt_user = None\<rparr>"
    by code_simp
  from unknown h1 have c1: "create_adoption 12 5 ''Grace'' ''Hopper'' ''0607080910'' two_pending
     = (Inl NotFoundError, two_pending)"
    by blast
  from adopted h2 have c2: "create_adoption 12 1 ''Grace'' ''Hopper'' ''0607080910'' after_approval
     = (Inl ConflictError, after_approval)"
    by simp
  from again have c5:
    "animals (snd (create_adoption 10 1 ''Ada'' ''Lovelace'' ''0102030405'' after_rejection))
       = animals after_rejection"
    by blast
  from c1 c2 h3 h4 c5 show ?thesis
    by blast
qed

subsection \<open>Cancelling one's own request\<close>

text \<open>
  Claim C7. Cancelling an existing request fails with Forbidden if the requester is not
  the request's user; fails with Conflict if the requester is its user and its status is
  not pending; otherwise the request is deleted. In every case the table of animals is
  left as it was.
\<close>

theorem cancel_adoption_contract:
  assumes "findUnique_adopt k (adopts s) = Some r"
  shows
    "(adopt_userid r \<noteq> requesterId \<longrightarrow>
        cancel_adoption requesterId (Some k) s = (Inl ForbiddenError, s)) \<and>
     (adopt_userid r = requesterId \<and> adopt_status r \<noteq> ''pending'' \<longrightarrow>
        cancel_adoption requesterId (Some k) s = (Inl ConflictError, s)) \<and>
     (adopt_userid r = requesterId \<and> adopt_status r = ''pending'' \<longrightarrow>
        cancel_adoption requesterId (Some k) s =
          (Inr (), s\<lparr>adopts := filter (\<lambda>x. adopt_id x \<noteq> k) (adopts s)\<rparr>) \<and>
        findUnique_adopt k (adopts (snd (cancel_adoption requesterId (Some k) s))) = None) \<and>
     animals (snd (cancel_adoption requesterId (Some k) s)) = animals s"
  using assms
  by (auto simp: cancel_adoption_def delete_where_def findUnique_adopt_def find_filter_none)

theorem cancel_adoption_contract_witness:
  "cancel_adoption 11 (Some 1) two_pending = (Inl ForbiddenError, two_pending) \<and>
   cancel_adoption 10 (Some 1) after_approval = (Inl ConflictError, after_approval) \<and>
   map adopt_id (adopts (snd (cancel_adoption 10 (Some 1) two_pending))) = [2] \<and>
   animals (snd (cancel_adoption 10 (Some 1) two_pending)) = animals two_pending"
proof -
  have h1: "findUnique_adopt 1 (adopts two_pending)
              = Some \<lparr>adopt_id = 1, adopt_userid = 10, adopt_animalid = 1,
                      adopt_firstname = ''Ada'', adopt_lastname = ''Lovelace'',
                      adopt_phone = ''0102030405'', adopt_status = ''pending'',
                      adopt_user = None\<rparr>"
    by code_simp
  have h2: "findUnique_adopt 1 (adopts after_approval)
              = Some \<lparr>adopt_id = 1, adopt_userid = 10, adopt_animalid = 1,
                      adopt_firstname = ''Ada'', adopt_lastname = ''Lovelace'',
                      adopt_phone = ''0102030405'', adopt_status = ''approved'',
                      adopt_user = None\<rparr>"
    by code_simp
  have h3: "map adopt_id (filter (\<lambda>x. adopt_id x \<noteq> 1) (adopts two_pending)) = [2]"
    by code_simp
  from cancel_adoption_contract [OF h1, of 11] cancel_adoption_contract [OF h2, of 10]
    cancel_adoption_contract [OF h1, of 10] h3
  show ?thesis
    by simp
qed

subsection \<open>Deleting an animal\<close>

text \<open>
  Claim C6. Deleting an animal fails with NotFound if no animal has the id; it fails with
  Conflict, the store left as it was, whenever a request that references the animal is
  pending; with no pending request it succeeds, whatever rejected or approved requests
  reference the animal, and the table of animals loses exactly the rows with that id.
\<close>

theorem delete_animal_guard:
  "(findUnique_animal k (animals s) = None \<longrightarrow>
      delete_animal_route (Some k) s = (Inl NotFoundError, s)) \<and>
   (\<forall>a. findUnique_animal k (animals s) = Some a \<and>
        (\<exists>r\<in>set (adopts s). adopt_animalid r = k \<and> adopt_status r = ''pending'') \<longrightarrow>
      delete_animal_route (Some k) s = (Inl ConflictError, s)) \<and>
   (\<forall>a. findUnique_animal k (animals s) = Some a \<and>
        (\<forall>r\<in>set (adopts s). adopt_animalid r = k \<longrightarrow> adopt_status r \<noteq> ''pending'') \<longrightarrow>
      fst (delete_animal_route (Some k) s) = Inr () \<and>
      animals (snd (delete_animal_route (Some k) s))
        = filter (\<lambda>x. animal_id x \<noteq> k) (animals s) \<and>
      findUnique_animal k (animals (snd (delete_animal_route (Some k) s))) = None)"
  by (auto simp: delete_animal_route_def deleteAnimal_def delete_animal_row_def delete_where_def
        findUnique_animal_def find_filter_none filter_empty_conv Let_def split: option.splits)

theorem delete_animal_guard_witness:
  "delete_animal_route (Some 5) two_pending = (Inl NotFoundError, two_pending) \<and>
   delete_animal_route (Some 1) two_pending = (Inl ConflictError, two_pending) \<and>
   map adopt_status (adopts after_approval) = [''approved'', ''rejected''] \<and>
   fst (delete_animal_route (Some 1) after_approval) = Inr () \<and>
   animals (snd (delete_animal_route (Some 1) after_approval)) = []"
proof -
  have h1: "findUnique_animal 5 (animals two_pending) = None"
    by code_simp
  have h2: "findUnique_animal 1 (animals two_pending)
              = Some \<lparr>animal_id = 1, animal_type = ''chien'', animal_name = ''Rex'',
                      animal_city = ''Paris'', animal_age = 3, animal_breed = ''Beagle'',
                      animal_description = None, animal_status = ''available''\<rparr>"
    by code_simp
  have h3: "\<exists>r\<in>set (adopts two_pending). adopt_animalid r = 1 \<and> adopt_status r = ''pending''"
    by (simp add: two_pending_def)
  have h4: "findUnique_animal 1 (animals after_approval)
              = Some \<lparr>animal_id = 1, animal_type = ''chien'', animal_name = ''Rex'',
                      animal_city = ''Paris'', animal_age = 3, animal_breed = ''Beagle'',
                      animal_description = None, animal_status = ''adopted''\<rparr>"
    by code_simp
  have h5: "map adopt_status (adopts after_approval) = [''approved'', ''rejected'']"
    by code_simp
  have h6: "\<forall>r\<in>set (adopts after_approval). adopt_animalid r = 1 \<longrightarrow> adopt_status r \<noteq> ''pending''"
  proof
    fix r assume "r \<in> set (adopts after_approval)"
    then have "adopt_status r \<in> set (map adopt_status (adopts after_approval))"
      by simp
    with h5 show "adopt_animalid r = 1 \<longrightarrow> adopt_status r \<noteq> ''pending''"
      by auto
  qed
  have h7: "filter (\<lambda>x. animal_id x \<noteq> 1) (animals after_approval) = []"
    by code_simp
  from delete_animal_guard [of 5 two_pending] h1
  have c1: "delete_animal_route (Some 5) two_pending = (Inl NotFoundError, two_pending)"
    by blast
  from delete_animal_guard [of 1 two_pending] h2 h3
  have c2: "delete_animal_route (Some 1) two_pending = (Inl ConflictError, two_pending)"
    by blast
  from delete_animal_guard [of 1 after_approval] h4 h6
  have c3: "fst (delete_animal_route (Some 1) after_approval) = Inr () \<and>
      animals (snd (delete_animal_route (Some 1) after_approval))
        = filter (\<lambda>x. animal_id x \<noteq> 1) (animals after_approval)"
    by blast
  from c1 c2 c3 h5 h7 show ?thesis
    by simp
qed

subsection \<open>The admin's deletion of a request\<close>

text \<open>
  Claim C9. The admin's deletion of a request checks only that the request exists: a
  request of any status is deleted, and nothing else is written. The table of animals
  and every other request are as before. So deleting the approved request of an adopted
  animal leaves the animal adopted with no approved request, and deleting the last
  pending request of an animal whose status is pending leaves that status.
\<close>

theorem admin_delete_adoption_frame:
  assumes "findUnique_adopt k (adopts s) = Some r"
  shows
    "admin_delete_adoption (Some k) s =
       (Inr (), s\<lparr>adopts := filter (\<lambda>x. adopt_id x \<noteq> k) (adopts s)\<rparr>) \<and>
     findUnique_adopt k (adopts (snd (admin_delete_adoption (Some k) s))) = None \<and>
     animals (snd (admin_delete_adoption (Some k) s)) = animals s \<and>
     filter (\<lambda>x. adopt_id x \<noteq> k) (adopts (snd (admin_delete_adoption (Some k) s)))
       = filter (\<lambda>x. adopt_id x \<noteq> k) (adopts s)"
  using assms
  by (auto simp: admin_delete_adoption_def delete_where_def findUnique_adopt_def find_filter_none)

theorem admin_delete_adoption_frame_witness:
  "map adopt_status (adopts after_approval) = [''approved'', ''rejected''] \<and>
   fst (admin_delete_adoption (Some 1) after_approval) = Inr () \<and>
   map animal_status (animals (snd (admin_delete_adoption (Some 1) after_approval)))
     = [''adopted''] \<and>
   map adopt_status (adopts (snd (admin_delete_adoption (Some 1) after_approval)))
     = [''rejected''] \<and>
   requests_with ''approved'' 1 (snd (admin_delete_adoption (Some 1) after_approval)) = 0 \<and>
   map adopt_status (adopts reserved_db) = [''pending''] \<and>
   fst (admin_delete_adoption (Some 1) reserved_db) = Inr () \<and>
   adopts (snd (admin_delete_adoption (Some 1) reserved_db)) = [] \<and>
   map animal_status (animals (snd (admin_delete_adoption (Some 1) reserved_db)))
     = [''pending'']"
proof -
  have h1: "findUnique_adopt 1 (adopts after_approval)
              = Some \<lparr>adopt_id = 1, adopt_userid = 10, adopt_animalid = 1,
                      adopt_firstname = ''Ada'', adopt_lastname = ''Lovelace'',
                      adopt_phone = ''0102030405'', adopt_status = ''approved'',
                      adopt_user = None\<rparr>"
    by code_simp
  have h2: "findUnique_adopt 1 (adopts reserved_db)
              = Some \<lparr>adopt_id = 1, adopt_userid = 10, adopt_animalid = 1,
                      adopt_firstname = ''Ada'', adopt_lastname = ''Lovelace'',
                      adopt_phone = ''0102030405'', adopt_status = ''pending'',
                      adopt_user = None\<rparr>"
    by code_simp
  have e1: "map adopt_status (adopts after_approval) = [''approved'', ''rejected'']"
    by code_simp
  have e2: "map animal_status (animals after_approval) = [''adopted'']"
    by code_simp
  have e3: "map adopt_status (filter (\<lambda>x. adopt_id x \<noteq> 1) (adopts after_approval))
              = [''rejected'']"
    by code_simp
  have e4: "count_where (\<lambda>r. adopt_animalid r = 1 \<and> adopt_status r = ''approved'')
              (filter (\<lambda>x. adopt_id x \<noteq> 1) (adopts after_approval)) = 0"
    by code_simp
  have e5: "map adopt_status (adopts reserved_db) = [''pending'']"
    by code_simp
  have e6: "filter (\<lambda>x. adopt_id x \<noteq> 1) (adopts reserved_db) = []"
    by code_simp
  have e7: "map animal_status (animals reserved_db) = [''pending'']"
    by code_simp
  from admin_delete_adoption_frame [OF h1] admin_delete_adoption_frame [OF h2]
    e1 e2 e3 e4 e5 e6 e7
  show ?thesis
    by (simp add: requests_with_def)
qed

subsection \<open>The admin's decision\<close>

lemma find_map_preserved:
  "(\<And>x. P (g x) = P x) \<Longrightarrow> find P (map g xs) = map_option g (find P xs)"
  by (induction xs) auto

lemma findUnique_adopt_update_where:
  "(\<And>x. adopt_id (f x) = adopt_id x) \<Longrightarrow>
   findUnique_adopt k (update_where Q f rows)
     = map_option (\<lambda>r. if Q r then f r else r) (findUnique_adopt k rows)"
  unfolding findUnique_adopt_def update_where_def
  by (rule find_map_preserved) simp

lemma findUnique_animal_update_where:
  "(\<And>x. animal_id (f x) = animal_id x) \<Longrightarrow>
   findUnique_animal k (update_where Q f rows)
     = map_option (\<lambda>r. if Q r then f r else r) (findUnique_animal k rows)"
  unfolding findUnique_animal_def update_where_def
  by (rule find_map_preserved) simp

lemma findUnique_adopt_id: "findUnique_adopt k rows = Some r \<Longrightarrow> adopt_id r = k"
  unfolding findUnique_adopt_def by (drule find_Some_mem) simp

lemma findUnique_animal_id: "findUnique_animal k rows = Some a \<Longrightarrow> animal_id a = k"
  unfolding findUnique_animal_def by (drule find_Some_mem) simp

lemma nth_update_where:
  "i < length rows \<Longrightarrow> update_where Q f rows ! i = (if Q (rows ! i) then f (rows ! i) else rows ! i)"
  by (simp add: update_where_def)

lemma length_update_where: "length (update_where Q f rows) = length rows"
  by (simp add: update_where_def)

lemma count_where_0_iff: "count_where P rows = 0 \<longleftrightarrow> (\<forall>r\<in>set rows. \<not> P r)"
  by (simp add: count_where_def filter_empty_conv)

lemma rejected_count_after_cascade:
  "count_where (\<lambda>r. adopt_animalid r = x \<and> adopt_id r \<noteq> k \<and> adopt_status r = ''rejected'')
     (update_where (\<lambda>r. adopt_animalid r = x \<and> adopt_id r \<noteq> k \<and> adopt_status r = ''pending'')
        (\<lambda>r. r\<lparr>adopt_status := ''rejected'', adopt_user := u\<rparr>)
        (update_where (\<lambda>r. adopt_id r = k) (\<lambda>r. r\<lparr>adopt_status := st, adopt_user := v\<rparr>) rows))
   = count_where (\<lambda>r. adopt_animalid r = x \<and> adopt_id r \<noteq> k \<and> adopt_status r = ''rejected'') rows
     + count_where (\<lambda>r. adopt_animalid r = x \<and> adopt_id r \<noteq> k \<and> adopt_status r = ''pending'') rows"
  by (induction rows) (simp_all add: count_where_def update_where_def)

text \<open>The store after an approval, written out.\<close>

lemma decide_approved:
  assumes "findUnique_adopt k (adopts s) = Some A"
    and "findUnique_animal (adopt_animalid A) (animals s) = Some X"
  shows "decide (Some k) ''approved'' c s =
    (Inr (A\<lparr>adopt_status := ''approved'', adopt_user := or_null c\<rparr>),
     s\<lparr>animals := update_where (\<lambda>a. animal_id a = adopt_animalid A)
                    (\<lambda>a. a\<lparr>animal_status := ''adopted''\<rparr>) (animals s),
       adopts := update_where
                   (\<lambda>r. adopt_animalid r = adopt_animalid A \<and> adopt_id r \<noteq> k
                        \<and> adopt_status r = ''pending'')
                   (\<lambda>r. r\<lparr>adopt_status := ''rejected'', adopt_user := Some auto_reject_comment\<rparr>)
                   (update_where (\<lambda>r. adopt_id r = k)
                      (\<lambda>r. r\<lparr>adopt_status := ''approved'', adopt_user := or_null c\<rparr>)
                      (adopts s))\<rparr>)"
  using assms by (simp add: decide_def decide_transaction_def Let_def)

lemma decide_rejected:
  assumes "findUnique_adopt k (adopts s) = Some A"
    and "findUnique_animal (adopt_animalid A) (animals s) = Some X"
  shows "decide (Some k) ''rejected'' c s =
    (Inr (A\<lparr>adopt_status := ''rejected'', adopt_user := or_null c\<rparr>),
     (if animal_status X = ''pending'' \<and>
         count_where (\<lambda>r. adopt_animalid r = adopt_animalid A \<and> adopt_id r \<noteq> k
                          \<and> adopt_status r = ''pending'')
           (update_where (\<lambda>r. adopt_id r = k)
              (\<lambda>r. r\<lparr>adopt_status := ''rejected'', adopt_user := or_null c\<rparr>) (adopts s)) = 0
      then s\<lparr>adopts := update_where (\<lambda>r. adopt_id r = k)
                (\<lambda>r. r\<lparr>adopt_status := ''rejected'', adopt_user := or_null c\<rparr>) (adopts s),
             animals := update_where (\<lambda>a. animal_id a = adopt_animalid A)
                (\<lambda>a. a\<lparr>animal_status := ''available''\<rparr>) (animals s)\<rparr>
      else s\<lparr>adopts := update_where (\<lambda>r. adopt_id r = k)
                (\<lambda>r. r\<lparr>adopt_status := ''rejected'', adopt_user := or_null c\<rparr>) (adopts s)\<rparr>))"
  using assms by (simp add: decide_def decide_transaction_def Let_def)

text \<open>
  The decision is all or nothing: when it answers an error, whether before the
  transaction or by a statement that throws inside it, the store is the one it was
  given.
\<close>

lemma decide_all_or_nothing: "fst (decide p st c s) = Inl e \<Longrightarrow> snd (decide p st c s) = s"
  by (auto simp: decide_def split: option.splits if_splits prod.splits)

text \<open>
  Claim C1. For a request A that references an existing animal X, deciding A approved
  succeeds inside the one transaction of the route and returns the store in which A is
  approved, X is adopted and every other request for X that was pending is rejected;
  every other row of both tables is as before, so requests for X that were already
  approved or rejected are unchanged. Counted: no request for X is pending afterwards,
  and the rejected requests for X other than A are those rejected before plus those
  pending before.
\<close>

theorem approve_cascade:
  assumes "findUnique_adopt k (adopts s) = Some A"
    and "findUnique_animal (adopt_animalid A) (animals s) = Some X"
  shows "\<exists>s'. decide (Some k) ''approved'' c s
                 = (Inr (A\<lparr>adopt_status := ''approved'', adopt_user := or_null c\<rparr>), s') \<and>
     findUnique_adopt k (adopts s')
       = Some (A\<lparr>adopt_status := ''approved'', adopt_user := or_null c\<rparr>) \<and>
     findUnique_animal (adopt_animalid A) (animals s')
       = Some (X\<lparr>animal_status := ''adopted''\<rparr>) \<and>
     length (adopts s') = length (adopts s) \<and>
     (\<forall>i<length (adopts s).
        (adopt_id (adopts s ! i) = k \<longrightarrow>
           adopts s' ! i = (adopts s ! i)\<lparr>adopt_status := ''approved'', adopt_user := or_null c\<rparr>) \<and>
        (adopt_id (adopts s ! i) \<noteq> k \<and> adopt_animalid (adopts s ! i) = adopt_animalid A \<and>
         adopt_status (adopts s ! i) = ''pending'' \<longrightarrow>
           adopts s' ! i = (adopts s ! i)\<lparr>adopt_status := ''rejected'',
                                         adopt_user := Some auto_reject_comment\<rparr>) \<and>
        (adopt_id (adopts s ! i) \<noteq> k \<and>
         \<not> (adopt_animalid (adopts s ! i) = adopt_animalid A \<and>
            adopt_status (adopts s ! i) = ''pending'') \<longrightarrow>
           adopts s' ! i = adopts s ! i)) \<and>
     requests_with ''pending'' (adopt_animalid A) s' = 0 \<and>
     count_where (\<lambda>r. adopt_animalid r = adopt_animalid A \<and> adopt_id r \<noteq> k
                      \<and> adopt_status r = ''rejected'') (adopts s')
       = count_where (\<lambda>r. adopt_animalid r = adopt_animalid A \<and> adopt_id r \<noteq> k
                        \<and> adopt_status r = ''rejected'') (adopts s)
         + count_where (\<lambda>r. adopt_animalid r = adopt_animalid A \<and> adopt_id r \<noteq> k
                          \<and> adopt_status r = ''pending'') (adopts s) \<and>
     length (animals s') = length (animals s) \<and>
     (\<forall>j<length (animals s).
        animals s' ! j = (if animal_id (animals s ! j) = adopt_animalid A
                          then (animals s ! j)\<lparr>animal_status := ''adopted''\<rparr>
                          else animals s ! j))"
proof -
  let ?s' = "snd (decide (Some k) ''approved'' c s)"
  note d = decide_approved [OF assms, of c]
  have idA: "adopt_id A = k"
    using assms(1) by (rule findUnique_adopt_id)
  have idX: "animal_id X = adopt_animalid A"
    using assms(2) by (rule findUnique_animal_id)
  have 1: "findUnique_adopt k (adopts ?s')
       = Some (A\<lparr>adopt_status := ''approved'', adopt_user := or_null c\<rparr>)"
    using assms(1) idA by (simp add: d findUnique_adopt_update_where)
  have 2: "findUnique_animal (adopt_animalid A) (animals ?s')
       = Some (X\<lparr>animal_status := ''adopted''\<rparr>)"
    using assms(2) idX by (simp add: d findUnique_animal_update_where)
  have 3: "length (adopts ?s') = length (adopts s)" "length (animals ?s') = length (animals s)"
    by (simp_all add: d length_update_where)
  have 4: "\<forall>i<length (adopts s).
        (adopt_id (adopts s ! i) = k \<longrightarrow>
           adopts ?s' ! i = (adopts s ! i)\<lparr>adopt_status := ''approved'', adopt_user := or_null c\<rparr>) \<and>
        (adopt_id (adopts s ! i) \<noteq> k \<and> adopt_animalid (adopts s ! i) = adopt_animalid A \<and>
         adopt_status (adopts s ! i) = ''pending'' \<longrightarrow>
           adopts ?s' ! i = (adopts s ! i)\<lparr>adopt_status := ''rejected'',
                                         adopt_user := Some auto_reject_comment\<rparr>) \<and>
        (adopt_id (adopts s ! i) \<noteq> k \<and>
         \<not> (adopt_animalid (adopts s ! i) = adopt_animalid A \<and>
            adopt_status (adopts s ! i) = ''pending'') \<longrightarrow>
           adopts ?s' ! i = adopts s ! i)"
    by (simp add: d nth_update_where length_update_where)
  have 5: "requests_with ''pending'' (adopt_animalid A) ?s' = 0"
    by (auto simp: d requests_with_def count_where_0_iff update_where_def)
  have 6: "\<forall>j<length (animals s).
        animals ?s' ! j = (if animal_id (animals s ! j) = adopt_animalid A
                          then (animals s ! j)\<lparr>animal_status := ''adopted''\<rparr>
                          else animals s ! j)"
    by (simp add: d nth_update_where)
  have 7: "count_where (\<lambda>r. adopt_animalid r = adopt_animalid A \<and> adopt_id r \<noteq> k
                      \<and> adopt_status r = ''rejected'') (adopts ?s')
       = count_where (\<lambda>r. adopt_animalid r = adopt_animalid A \<and> adopt_id r \<noteq> k
                        \<and> adopt_status r = ''rejected'') (adopts s)
         + count_where (\<lambda>r. adopt_animalid r = adopt_animalid A \<and> adopt_id r \<noteq> k
                          \<and> adopt_status r = ''pending'') (adopts s)"
    by (simp add: d rejected_count_after_cascade)
  have 0: "decide (Some k) ''approved'' c s
         = (Inr (A\<lparr>adopt_status := ''approved'', adopt_user := or_null c\<rparr>), ?s')"
    by (simp add: d)
  from 0 1 2 3 4 5 6 7 show ?thesis
    by blast
qed

theorem approve_cascade_witness:
  "fst (decide (Some 1) ''approved'' None two_pending)
     = Inr \<lparr>adopt_id = 1, adopt_userid = 10, adopt_animalid = 1, adopt_firstname = ''Ada'',
            adopt_lastname = ''Lovelace'', adopt_phone = ''0102030405'',
            adopt_status = ''approved'', adopt_user = None\<rparr> \<and>
   map adopt_status (adopts (snd (decide (Some 1) ''approved'' None two_pending)))
     = [''approved'', ''rejected''] \<and>
   map animal_status (animals (snd (decide (Some 1) ''approved'' None two_pending)))
     = [''adopted''] \<and>
   requests_with ''pending'' 1 (snd (decide (Some 1) ''approved'' None two_pending)) = 0"
proof -
  let ?A = "\<lparr>adopt_id = 1, adopt_userid = 10, adopt_animalid = 1, adopt_firstname = ''Ada'',
            adopt_lastname = ''Lovelace'', adopt_phone = ''0102030405'',
            adopt_status = ''pending'', adopt_user = None\<rparr>"
  let ?X = "\<lparr>animal_id = 1, animal_type = ''chien'', animal_name = ''Rex'',
            animal_city = ''Paris'', animal_age = 3, animal_breed = ''Beagle'',
            animal_description = None, animal_status = ''available''\<rparr>"
  have h1: "findUnique_adopt 1 (adopts two_pending) = Some ?A"
    by code_simp
  have h2: "findUnique_animal (adopt_animalid ?A) (animals two_pending) = Some ?X"
    by code_simp
  have e1: "map adopt_status (adopts (snd (decide (Some 1) ''approved'' None two_pending)))
     = [''approved'', ''rejected'']"
    by code_simp
  have e2: "map animal_status (animals (snd (decide (Some 1) ''approved'' None two_pending)))
     = [''adopted'']"
    by code_simp
  from approve_cascade [OF h1 h2, of None] obtain s' where
    s': "decide (Some 1) ''approved'' None two_pending
           = (Inr (?A\<lparr>adopt_status := ''approved'', adopt_user := or_null None\<rparr>), s')"
    and p: "requests_with ''pending'' (adopt_animalid ?A) s' = 0"
    by blast
  from s' have "snd (decide (Some 1) ''approved'' None two_pending) = s'"
    by simp
  with s' p e1 e2 show ?thesis
    by (simp add: or_null_def)
qed

text \<open>
  Claim C5. Deciding rejected on the last pending request of an animal whose status is
  one of the valid statuses other than adopted succeeds; afterwards no request for the
  animal is pending and the animal's status is available.
\<close>

theorem reject_last_pending:
  assumes "findUnique_adopt k (adopts s) = Some A"
    and "adopt_status A = ''pending''"
    and "\<forall>r\<in>set (adopts s). adopt_animalid r = adopt_animalid A \<and> adopt_status r = ''pending''
            \<longrightarrow> adopt_id r = k"
    and "findUnique_animal (adopt_animalid A) (animals s) = Some X"
    and "animal_status X \<in> set validStatuses"
    and "animal_status X \<noteq> ''adopted''"
  shows "\<exists>s'. decide (Some k) ''rejected'' c s
                 = (Inr (A\<lparr>adopt_status := ''rejected'', adopt_user := or_null c\<rparr>), s') \<and>
     requests_with ''pending'' (adopt_animalid A) s' = 0 \<and>
     findUnique_animal (adopt_animalid A) (animals s')
       = Some (X\<lparr>animal_status := ''available''\<rparr>)"
proof -
  let ?s' = "snd (decide (Some k) ''rejected'' c s)"
  let ?rows = "update_where (\<lambda>r. adopt_id r = k)
                 (\<lambda>r. r\<lparr>adopt_status := ''rejected'', adopt_user := or_null c\<rparr>) (adopts s)"
  note d = decide_rejected [OF assms(1) assms(4), of c]
  have idX: "animal_id X = adopt_animalid A"
    using assms(4) by (rule findUnique_animal_id)
  have none: "\<forall>r\<in>set ?rows. \<not> (adopt_animalid r = adopt_animalid A \<and> adopt_status r = ''pending'')"
    using assms(3) by (auto simp: update_where_def)
  then have others: "count_where (\<lambda>r. adopt_animalid r = adopt_animalid A \<and> adopt_id r \<noteq> k
                          \<and> adopt_status r = ''pending'') ?rows = 0"
    by (auto simp: count_where_0_iff)
  have rows: "adopts ?s' = ?rows"
    by (simp add: d)
  have 1: "requests_with ''pending'' (adopt_animalid A) ?s' = 0"
    unfolding requests_with_def rows using none by (simp add: count_where_0_iff)
  have cases: "animal_status X = ''available'' \<or> animal_status X = ''pending''"
    using assms(5,6) by (auto simp: validStatuses_def)
  have same: "X\<lparr>animal_status := ''available''\<rparr> = X" if "animal_status X = ''available''"
    using that by simp
  have 2: "findUnique_animal (adopt_animalid A) (animals ?s')
       = Some (X\<lparr>animal_status := ''available''\<rparr>)"
    using cases
  proof
    assume a: "animal_status X = ''available''"
    then have "animals ?s' = animals s"
      by (simp add: d)
    with assms(4) same [OF a] show ?thesis
      by simp
  next
    assume "animal_status X = ''pending''"
    then have "animals ?s' = update_where (\<lambda>a. animal_id a = adopt_animalid A)
                (\<lambda>a. a\<lparr>animal_status := ''available''\<rparr>) (animals s)"
      using others by (simp add: d)
    with assms(4) idX show ?thesis
      by (simp add: findUnique_animal_update_where)
  qed
  have 0: "decide (Some k) ''rejected'' c s
         = (Inr (A\<lparr>adopt_status := ''rejected'', adopt_user := or_null c\<rparr>), ?s')"
    by (simp add: d)
  from 0 1 2 show ?thesis
    by blast
qed

theorem reject_last_pending_witness:
  "map adopt_status (adopts reserved_db) = [''pending''] \<and>
   map animal_status (animals reserved_db) = [''pending''] \<and>
   requests_with ''pending'' 1 (snd (decide (Some 1) ''rejected'' None reserved_db)) = 0 \<and>
   map animal_status (animals (snd (decide (Some 1) ''rejected'' None reserved_db)))
     = [''available'']"
proof -
  let ?A = "\<lparr>adopt_id = 1, adopt_userid = 10, adopt_animalid = 1, adopt_firstname = ''Ada'',
            adopt_lastname = ''Lovelace'', adopt_phone = ''0102030405'',
            adopt_status = ''pending'', adopt_user = None\<rparr>"
  let ?X = "\<lparr>animal_id = 1, animal_type = ''chien'', animal_name = ''Rex'',
            animal_city = ''Paris'', animal_age = 3, animal_breed = ''Beagle'',
            animal_description = None, animal_status = ''pending''\<rparr>"
  have rows: "adopts reserved_db = [?A]"
    by code_simp
  have h1: "findUnique_adopt 1 (adopts reserved_db) = Some ?A"
    by code_simp
  have h2: "adopt_status ?A = ''pending''"
    by simp
  have h3: "\<forall>r\<in>set (adopts reserved_db).
              adopt_animalid r = adopt_animalid ?A \<and> adopt_status r = ''pending''
              \<longrightarrow> adopt_id r = 1"
    by (simp add: rows)
  have h4: "findUnique_animal (adopt_animalid ?A) (animals reserved_db) = Some ?X"
    by code_simp
  have h5: "animal_status ?X \<in> set validStatuses"
    by (simp add: validStatuses_def)
  have h6: "animal_status ?X \<noteq> ''adopted''"
    by simp
  have e1: "map animal_status (animals reserved_db) = [''pending'']"
    by code_simp
  have e2: "map animal_status (animals (snd (decide (Some 1) ''rejected'' None reserved_db)))
     = [''available'']"
    by code_simp
  from reject_last_pending [OF h1 h2 h3 h4 h5 h6, of None] obtain s' where
    s': "decide (Some 1) ''rejected'' None reserved_db
           = (Inr (?A\<lparr>adopt_status := ''rejected'', adopt_user := or_null None\<rparr>), s')"
    and p: "requests_with ''pending'' (adopt_animalid ?A) s' = 0"
    by blast
  from s' have "snd (decide (Some 1) ''rejected'' None reserved_db) = s'"
    by simp
  with p e1 e2 rows show ?thesis
    by simp
qed

lemma decide_pending:
  assumes "findUnique_adopt k (adopts s) = Some A"
  shows "decide (Some k) ''pending'' c s =
    (Inr (A\<lparr>adopt_status := ''pending'', adopt_user := or_null c\<rparr>),
     s\<lparr>adopts := update_where (\<lambda>r. adopt_id r = k)
                (\<lambda>r. r\<lparr>adopt_status := ''pending'', adopt_user := or_null c\<rparr>) (adopts s)\<rparr>)"
  using assms by (simp add: decide_def decide_transaction_def Let_def)

lemma decide_not_conflict: "fst (decide p st c s) \<noteq> Inl ConflictError"
  by (simp add: decide_def split: option.splits prod.splits)

text \<open>
  Claim C3, as the code has it. The decision route never answers Conflict: it does not
  look at the current status of the request. On an existing request that is approved or
  rejected, with its animal present and a new status among pending, approved and
  rejected, the decision succeeds and overwrites the status of the request with the new
  one.
\<close>

theorem decide_overwrites_status:
  "fst (decide p st c s) \<noteq> Inl ConflictError \<and>
   (\<forall>A X. findUnique_adopt k (adopts s) = Some A \<and> adopt_status A \<noteq> ''pending'' \<and>
          findUnique_animal (adopt_animalid A) (animals s) = Some X \<and>
          st \<in> set [''pending'', ''approved'', ''rejected''] \<longrightarrow>
      fst (decide (Some k) st c s) = Inr (A\<lparr>adopt_status := st, adopt_user := or_null c\<rparr>) \<and>
      findUnique_adopt k (adopts (snd (decide (Some k) st c s)))
        = Some (A\<lparr>adopt_status := st, adopt_user := or_null c\<rparr>))"
proof (intro conjI allI impI)
  show "fst (decide p st c s) \<noteq> Inl ConflictError"
    by (rule decide_not_conflict)
next
  fix A X
  assume h: "findUnique_adopt k (adopts s) = Some A \<and> adopt_status A \<noteq> ''pending'' \<and>
          findUnique_animal (adopt_animalid A) (animals s) = Some X \<and>
          st \<in> set [''pending'', ''approved'', ''rejected'']"
  then have A: "findUnique_adopt k (adopts s) = Some A"
    and X: "findUnique_animal (adopt_animalid A) (animals s) = Some X"
    and st: "st = ''pending'' \<or> st = ''approved'' \<or> st = ''rejected''"
    by auto
  have idA: "adopt_id A = k"
    using A by (rule findUnique_adopt_id)
  from st show "fst (decide (Some k) st c s) = Inr (A\<lparr>adopt_status := st, adopt_user := or_null c\<rparr>)"
    by (auto simp: decide_pending [OF A] decide_approved [OF A X] decide_rejected [OF A X])
  have "findUnique_adopt k (adopts (snd (decide (Some k) st c s)))
        = Some (A\<lparr>adopt_status := st, adopt_user := or_null c\<rparr>)" if "st = ''pending''"
    by (simp add: that decide_pending [OF A] findUnique_adopt_update_where A idA)
  moreover have "findUnique_adopt k (adopts (snd (decide (Some k) st c s)))
        = Some (A\<lparr>adopt_status := st, adopt_user := or_null c\<rparr>)" if "st = ''approved''"
    by (simp add: that decide_approved [OF A X] findUnique_adopt_update_where A idA)
  moreover have "findUnique_adopt k (adopts (snd (decide (Some k) st c s)))
        = Some (A\<lparr>adopt_status := st, adopt_user := or_null c\<rparr>)" if "st = ''rejected''"
    by (simp add: that decide_rejected [OF A X] findUnique_adopt_update_where A idA)
  ultimately show "findUnique_adopt k (adopts (snd (decide (Some k) st c s)))
        = Some (A\<lparr>adopt_status := st, adopt_user := or_null c\<rparr>)"
    using st by blast
qed

text \<open>
  Claim C3 as stated, with a Conflict for a request that is no longer pending, fails:
  after request 1 was approved, which rejected request 2, approving request 2 succeeds,
  and both requests of the animal are approved.
\<close>

theorem decide_terminal_counterexample:
  "map adopt_status (adopts after_approval) = [''approved'', ''rejected''] \<and>
   fst (decide (Some 2) ''approved'' None after_approval)
     = Inr \<lparr>adopt_id = 2, adopt_userid = 11, adopt_animalid = 1, adopt_firstname = ''Alan'',
            adopt_lastname = ''Turing'', adopt_phone = ''0504030201'',
            adopt_status = ''approved'', adopt_user = None\<rparr> \<and>
   fst (decide (Some 2) ''approved'' None after_approval) \<noteq> Inl ConflictError \<and>
   map adopt_status (adopts (snd (decide (Some 2) ''approved'' None after_approval)))
     = [''approved'', ''approved'']"
proof -
  have 1: "map adopt_status (adopts after_approval) = [''approved'', ''rejected'']"
    by code_simp
  have 2: "fst (decide (Some 2) ''approved'' None after_approval)
     = Inr \<lparr>adopt_id = 2, adopt_userid = 11, adopt_animalid = 1, adopt_firstname = ''Alan'',
            adopt_lastname = ''Turing'', adopt_phone = ''0504030201'',
            adopt_status = ''approved'', adopt_user = None\<rparr>"
    by code_simp
  have 3: "map adopt_status (adopts (snd (decide (Some 2) ''approved'' None after_approval)))
     = [''approved'', ''approved'']"
    by code_simp
  from 1 2 3 show ?thesis
    by simp
qed

theorem decide_overwrites_status_witness:
  "findUnique_adopt 2 (adopts after_approval)
     = Some \<lparr>adopt_id = 2, adopt_userid = 11, adopt_animalid = 1, adopt_firstname = ''Alan'',
             adopt_lastname = ''Turing'', adopt_phone = ''0504030201'',
             adopt_status = ''rejected'', adopt_user = Some auto_reject_comment\<rparr> \<and>
   fst (decide (Some 2) ''approved'' None after_approval)
     = Inr \<lparr>adopt_id = 2, adopt_userid = 11, adopt_animalid = 1, adopt_firstname = ''Alan'',
            adopt_lastname = ''Turing'', adopt_phone = ''0504030201'',
            adopt_status = ''approved'', adopt_user = None\<rparr> \<and>
   findUnique_adopt 2 (adopts (snd (decide (Some 2) ''approved'' None after_approval)))
     = Some \<lparr>adopt_id = 2, adopt_userid = 11, adopt_animalid = 1, adopt_firstname = ''Alan'',
             adopt_lastname = ''Turing'', adopt_phone = ''0504030201'',
             adopt_status = ''approved'', adopt_user = None\<rparr>"
proof -
  let ?A = "\<lparr>adopt_id = 2, adopt_userid = 11, adopt_animalid = 1, adopt_firstname = ''Alan'',
             adopt_lastname = ''Turing'', adopt_phone = ''0504030201'',
             adopt_status = ''rejected'', adopt_user = Some auto_reject_comment\<rparr>"
  let ?X = "\<lparr>animal_id = 1, animal_type = ''chien'', animal_name = ''Rex'',
            animal_city = ''Paris'', animal_age = 3, animal_breed = ''Beagle'',
            animal_description = None, animal_status = ''adopted''\<rparr>"
  have h1: "findUnique_adopt 2 (adopts after_approval) = Some ?A"
    by code_simp
  have h2: "adopt_status ?A \<noteq> ''pending''"
    by simp
  have h3: "findUnique_animal (adopt_animalid ?A) (animals after_approval) = Some ?X"
    by code_simp
  have h4: "''approved'' \<in> set [''pending'', ''approved'', ''rejected'']"
    by simp
  from decide_overwrites_status [of "Some 2" "''approved''" None after_approval 2] h1 h2 h3 h4
  have "fst (decide (Some 2) ''approved'' None after_approval)
          = Inr (?A\<lparr>adopt_status := ''approved'', adopt_user := or_null None\<rparr>) \<and>
        findUnique_adopt 2 (adopts (snd (decide (Some 2) ''approved'' None after_approval)))
          = Some (?A\<lparr>adopt_status := ''approved'', adopt_user := or_null None\<rparr>)"
    by blast
  with h1 show ?thesis
    by (simp add: or_null_def)
qed

subsection \<open>Login and the role derived from the admin list\<close>

text \<open>
  Claim C10, as the code has it. In a successful login where the role derived from the
  admin list differs from the stored role, the stored role is overwritten with the
  derived role. The user object of the response carries the role stored before. The
  token carries the role stored before when that is a non-empty string, which then
  differs from the derived role, and the default user when no role or the empty role was
  stored.
\<close>

theorem login_role_overwrite:
  assumes "find (\<lambda>x. user_email x = email) us = Some u"
    and "comparePassword password (user_password u)"
    and "Some (determineUserRole email) \<noteq> user_role u"
  shows "\<exists>view tok us'. login comparePassword email password us = (Inr (view, tok), us') \<and>
     find (\<lambda>x. user_email x = email) us' = Some (u\<lparr>user_role := Some (determineUserRole email)\<rparr>) \<and>
     view_role view = user_role u \<and>
     token_role tok = or_default (user_role u) ''user'' \<and>
     (\<forall>r. user_role u = Some r \<and> r \<noteq> [] \<longrightarrow>
          token_role tok = r \<and> token_role tok \<noteq> determineUserRole email) \<and>
     (user_role u = None \<or> user_role u = Some [] \<longrightarrow> token_role tok = ''user'')"
proof -
  let ?g = "\<lambda>x. if user_id x = user_id u then x\<lparr>user_role := Some (determineUserRole email)\<rparr> else x"
  have "find (\<lambda>x. user_email x = email) (map ?g us) = map_option ?g (find (\<lambda>x. user_email x = email) us)"
    by (rule find_map_preserved) simp
  then have f: "find (\<lambda>x. user_email x = email) (map ?g us)
                  = Some (u\<lparr>user_role := Some (determineUserRole email)\<rparr>)"
    using assms(1) by simp
  show ?thesis
    using assms f
    by (auto simp: login_def Let_def update_where_def generateToken_def or_default_def)
qed

text \<open>
  Claim C10 as stated, with a token that always carries the role stored before and not
  the updated one, fails: for a user without a stored role whose email is not on the
  admin list, the token of the login carries the role user, which is the role the same
  call has just stored, and not the absent role stored before.
\<close>

theorem login_stale_role_counterexample:
  "user_role bob = None \<and>
   Some (determineUserRole ''bob@example.com'') \<noteq> user_role bob \<and>
   login accept_password ''bob@example.com'' ''secret'' [bob]
     = (Inr (\<lparr>view_id = 1, view_firstname = ''Bob'', view_lastname = ''Martin'',
               view_email = ''bob@example.com'', view_phone = None, view_role = None\<rparr>,
             \<lparr>token_userId = 1, token_email = ''bob@example.com'', token_role = ''user''\<rparr>),
        [bob\<lparr>user_role := Some ''user''\<rparr>])"
proof -
  have 1: "user_role bob = None"
    by (simp add: bob_def)
  have 2: "login accept_password ''bob@example.com'' ''secret'' [bob]
     = (Inr (\<lparr>view_id = 1, view_firstname = ''Bob'', view_lastname = ''Martin'',
               view_email = ''bob@example.com'', view_phone = None, view_role = None\<rparr>,
             \<lparr>token_userId = 1, token_email = ''bob@example.com'', token_role = ''user''\<rparr>),
        [bob\<lparr>user_role := Some ''user''\<rparr>])"
    by code_simp
  from 1 2 show ?thesis
    by simp
qed

theorem login_role_overwrite_witness:
  "login accept_password ''admin@adaopte.com'' ''secret'' [bob, alice]
     = (Inr (\<lparr>view_id = 2, view_firstname = ''Alice'', view_lastname = ''Durand'',
               view_email = ''admin@adaopte.com'', view_phone = Some ''0611223344'',
               view_role = Some ''user''\<rparr>,
             \<lparr>token_userId = 2, token_email = ''admin@adaopte.com'', token_role = ''user''\<rparr>),
        [bob, alice\<lparr>user_role := Some ''admin''\<rparr>]) \<and>
   find (\<lambda>x. user_email x = ''admin@adaopte.com'')
     (snd (login accept_password ''admin@adaopte.com'' ''secret'' [bob, alice]))
     = Some (alice\<lparr>user_role := Some ''admin''\<rparr>)"
proof -
  have h1: "find (\<lambda>x. user_email x = ''admin@adaopte.com'') [bob, alice] = Some alice"
    by (simp add: bob_def alice_def)
  have h2: "accept_password ''secret'' (user_password alice)"
    by (simp add: accept_password_def)
  have d: "determineUserRole ''admin@adaopte.com'' = ''admin''"
    by code_simp
  have h3: "Some (determineUserRole ''admin@adaopte.com'') \<noteq> user_role alice"
    by (simp add: d alice_def)
  have e: "login accept_password ''admin@adaopte.com'' ''secret'' [bob, alice]
     = (Inr (\<lparr>view_id = 2, view_firstname = ''Alice'', view_lastname = ''Durand'',
               view_email = ''admin@adaopte.com'', view_phone = Some ''0611223344'',
               view_role = Some ''user''\<rparr>,
             \<lparr>token_userId = 2, token_email = ''admin@adaopte.com'', token_role = ''user''\<rparr>),
        [bob, alice\<lparr>user_role := Some ''admin''\<rparr>])"
    by code_simp
  from login_role_overwrite [of "''admin@adaopte.com''" "[bob, alice]" alice accept_password
      "''secret''", OF h1 h2 h3]
  obtain view tok us' where
    l: "login accept_password ''admin@adaopte.com'' ''secret'' [bob, alice] = (Inr (view, tok), us')"
    and f: "find (\<lambda>x. user_email x = ''admin@adaopte.com'') us'
              = Some (alice\<lparr>user_role := Some (determineUserRole ''admin@adaopte.com'')\<rparr>)"
    by blast
  from l have "snd (login accept_password ''admin@adaopte.com'' ''secret'' [bob, alice]) = us'"
    by simp
  with f e d show ?thesis
    by simp
qed

subsection \<open>The invariant of the adoption workflow\<close>

lemma count_where_append: "count_where P (xs @ ys) = count_where P xs + count_where P ys"
  by (simp add: count_where_def)

lemma count_where_filter_same:
  "(\<And>x. x \<in> set xs \<Longrightarrow> P x \<Longrightarrow> Q x) \<Longrightarrow> count_where P (filter Q xs) = count_where P xs"
  by (induction xs) (auto simp: count_where_def)

lemma count_where_filter_le: "count_where P (filter Q xs) \<le> count_where P xs"
  by (induction xs) (auto simp: count_where_def)

lemma findUnique_animal_mem: "findUnique_animal k rows = Some a \<Longrightarrow> a \<in> set rows \<and> animal_id a = k"
  unfolding findUnique_animal_def by (drule find_Some_mem) simp

lemma findUnique_adopt_mem: "findUnique_adopt k rows = Some r \<Longrightarrow> r \<in> set rows \<and> adopt_id r = k"
  unfolding findUnique_adopt_def by (drule find_Some_mem) simp

lemma distinct_map_eq:
  "distinct (map f xs) \<Longrightarrow> x \<in> set xs \<Longrightarrow> y \<in> set xs \<Longrightarrow> f x = f y \<Longrightarrow> x = y"
  by (meson distinct_map inj_onD)

lemma requests_with_animals [simp]:
  "requests_with st x (s\<lparr>animals := rows\<rparr>) = requests_with st x s"
  by (simp add: requests_with_def)

lemma requests_with_next_animal [simp]:
  "requests_with st x (s\<lparr>next_animal_id := n\<rparr>) = requests_with st x s"
  by (simp add: requests_with_def)

lemma requests_with_next_adopt [simp]:
  "requests_with st x (s\<lparr>next_adopt_id := n\<rparr>) = requests_with st x s"
  by (simp add: requests_with_def)

lemma store_inv_init: "store_inv init_db"
  by (simp add: store_inv_def init_db_def)

lemma store_inv_createAnimal:
  assumes "store_inv s"
  shows "store_inv (snd (createAnimal d s))"
proof (cases "fst (createAnimal d s)")
  case (Inl e)
  then have "snd (createAnimal d s) = s"
    by (auto simp: createAnimal_def Let_def split: if_splits)
  with assms show ?thesis by simp
next
  case (Inr a)
  then have s': "snd (createAnimal d s)
                   = s\<lparr>animals := animals s @ [a], next_animal_id := Suc (next_animal_id s)\<rparr>"
    and a: "animal_id a = next_animal_id s" "animal_status a = ''available''"
    by (auto simp: createAnimal_def Let_def split: if_splits)
  have fresh: "requests_with ''approved'' (next_animal_id s) s = 0"
    using assms by (auto simp: store_inv_def requests_with_def count_where_0_iff)
  show ?thesis
    unfolding s' using assms a fresh
    by (auto simp: store_inv_def less_Suc_eq workflow_ok_def)
qed

lemma cleanUpdateData_keeps:
  "ud_status u = None \<Longrightarrow> animal_status (cleanUpdateData u a) = animal_status a"
  "animal_id (cleanUpdateData u a) = animal_id a"
  by (simp_all add: cleanUpdateData_def)

lemma store_inv_updateAnimal:
  assumes "store_inv s" and "ud_status u = None"
  shows "store_inv (snd (updateAnimal k u s))"
proof (cases "fst (updateAnimal k u s)")
  case (Inl e)
  then have "snd (updateAnimal k u s) = s"
    by (auto simp: updateAnimal_def split: option.splits if_splits)
  with assms show ?thesis by simp
next
  case (Inr a)
  then have s': "snd (updateAnimal k u s)
      = s\<lparr>animals := update_where (\<lambda>a. animal_id a = k) (cleanUpdateData u) (animals s)\<rparr>"
    by (auto simp: updateAnimal_def split: option.splits if_splits)
  have ids: "map animal_id (update_where (\<lambda>a. animal_id a = k) (cleanUpdateData u) (animals s))
               = map animal_id (animals s)"
    by (simp add: update_where_def cleanUpdateData_keeps)
  show ?thesis
    unfolding s' using assms
    by (simp add: store_inv_def ids) (auto simp: update_where_def cleanUpdateData_keeps)
qed

lemma store_inv_deleteAnimal:
  assumes "store_inv s"
  shows "store_inv (snd (delete_animal_route (Some k) s))"
proof (cases "fst (delete_animal_route (Some k) s)")
  case (Inl e)
  then have "snd (delete_animal_route (Some k) s) = s"
    by (auto simp: delete_animal_route_def deleteAnimal_def Let_def
          split: option.splits if_splits)
  with assms show ?thesis by simp
next
  case (Inr a)
  then have s': "snd (delete_animal_route (Some k) s)
      = s\<lparr>animals := filter (\<lambda>a. animal_id a \<noteq> k) (animals s),
           adopts := filter (\<lambda>r. adopt_animalid r \<noteq> k) (adopts s)\<rparr>"
    by (auto simp: delete_animal_route_def deleteAnimal_def Let_def delete_animal_row_def
          delete_where_def split: option.splits if_splits)
  have cnt: "requests_with st x (s\<lparr>animals := filter (\<lambda>a. animal_id a \<noteq> k) (animals s),
           adopts := filter (\<lambda>r. adopt_animalid r \<noteq> k) (adopts s)\<rparr>) = requests_with st x s"
    if "x \<noteq> k" for st x
    using that by (auto simp: requests_with_def intro!: count_where_filter_same)
  show ?thesis
    unfolding s' using assms
    by (auto simp: store_inv_def cnt distinct_map_filter)
qed

lemma store_inv_create_adoption:
  assumes "store_inv s"
  shows "store_inv (snd (create_adoption u k f l p s))"
proof (cases "fst (create_adoption u k f l p s)")
  case (Inl e)
  then have "snd (create_adoption u k f l p s) = s"
    by (auto simp: create_adoption_def Let_def split: option.splits if_splits)
  with assms show ?thesis by simp
next
  case (Inr r)
  then obtain a where a: "findUnique_animal k (animals s) = Some a"
      "animal_status a = ''available''"
    and r: "adopt_id r = next_adopt_id s" "adopt_animalid r = k" "adopt_status r = ''pending''"
    and s': "snd (create_adoption u k f l p s)
               = s\<lparr>adopts := adopts s @ [r], next_adopt_id := Suc (next_adopt_id s)\<rparr>"
    by (auto simp: create_adoption_def Let_def split: option.splits if_splits)
  from a have amem: "a \<in> set (animals s)" "animal_id a = k"
    using findUnique_animal_mem by auto
  have approved: "requests_with ''approved'' x (s\<lparr>adopts := adopts s @ [r]\<rparr>)
                    = requests_with ''approved'' x s" for x
    using r by (simp add: requests_with_def count_where_append count_where_def)
  have pending: "requests_with ''pending'' x (s\<lparr>adopts := adopts s @ [r]\<rparr>)
                    = requests_with ''pending'' x s" if "x \<noteq> k" for x
    using r that by (simp add: requests_with_def count_where_append count_where_def)
  have ok: "workflow_ok (animal_status b) (requests_with ''approved'' (animal_id b) s)
              (requests_with ''pending'' (animal_id b) (s\<lparr>adopts := adopts s @ [r]\<rparr>))"
    if b: "b \<in> set (animals s)" for b
  proof (cases "animal_id b = k")
    case True
    with b amem assms have "b = a"
      by (auto simp: store_inv_def intro: distinct_map_eq)
    with a assms amem show ?thesis
      by (auto simp: store_inv_def workflow_ok_def)
  next
    case False
    with b assms show ?thesis
      by (simp add: pending store_inv_def)
  qed
  show ?thesis
    unfolding s' using assms r amem ok
    by (auto simp: store_inv_def approved less_Suc_eq)
qed

text \<open>Deleting the rows of one id, none of them approved.\<close>

lemma store_inv_delete_request:
  assumes "store_inv s"
    and "\<forall>r\<in>set (adopts s). adopt_id r = k \<longrightarrow> adopt_status r \<noteq> ''approved''"
  shows "store_inv (s\<lparr>adopts := delete_where (\<lambda>r. adopt_id r = k) (adopts s)\<rparr>)"
  unfolding delete_where_def
proof -
  have approved: "requests_with ''approved'' x
                    (s\<lparr>adopts := filter (\<lambda>r. adopt_id r \<noteq> k) (adopts s)\<rparr>)
                    = requests_with ''approved'' x s" for x
    using assms(2)
    by (auto simp: requests_with_def intro!: count_where_filter_same)
  have pending: "requests_with ''pending'' x
                    (s\<lparr>adopts := filter (\<lambda>r. adopt_id r \<noteq> k) (adopts s)\<rparr>)
                    \<le> requests_with ''pending'' x s" for x
    by (simp add: requests_with_def count_where_filter_le)
  have ok: "workflow_ok st n m' " if "workflow_ok st n m" "m' \<le> m" for st n m m'
    using that by (auto simp: workflow_ok_def)
  show "store_inv (s\<lparr>adopts := filter (\<lambda>r. adopt_id r \<noteq> k) (adopts s)\<rparr>)"
    using assms(1) pending
    by (auto simp: store_inv_def approved distinct_map_filter intro: ok)
qed

lemma store_inv_cancel:
  assumes "store_inv s"
  shows "store_inv (snd (cancel_adoption u (Some k) s))"
proof (cases "fst (cancel_adoption u (Some k) s)")
  case (Inl e)
  then have "snd (cancel_adoption u (Some k) s) = s"
    by (auto simp: cancel_adoption_def split: option.splits if_splits)
  with assms show ?thesis by simp
next
  case (Inr x)
  then obtain r where r: "findUnique_adopt k (adopts s) = Some r" "adopt_status r = ''pending''"
    and s': "snd (cancel_adoption u (Some k) s)
               = s\<lparr>adopts := delete_where (\<lambda>r. adopt_id r = k) (adopts s)\<rparr>"
    by (auto simp: cancel_adoption_def split: option.splits if_splits)
  from r have rmem: "r \<in> set (adopts s)" "adopt_id r = k"
    using findUnique_adopt_mem by auto
  have "\<forall>x\<in>set (adopts s). adopt_id x = k \<longrightarrow> adopt_status x \<noteq> ''approved''"
  proof (intro ballI impI)
    fix x assume "x \<in> set (adopts s)" "adopt_id x = k"
    with rmem assms have "x = r"
      by (auto simp: store_inv_def intro: distinct_map_eq)
    with r show "adopt_status x \<noteq> ''approved''"
      by simp
  qed
  with assms show ?thesis
    unfolding s' by (rule store_inv_delete_request)
qed

lemma store_inv_admin_delete:
  assumes "store_inv s"
    and "case findUnique_adopt k (adopts s) of None \<Rightarrow> True | Some r \<Rightarrow> adopt_status r \<noteq> ''approved''"
  shows "store_inv (snd (admin_delete_adoption (Some k) s))"
proof (cases "fst (admin_delete_adoption (Some k) s)")
  case (Inl e)
  then have "snd (admin_delete_adoption (Some k) s) = s"
    by (auto simp: admin_delete_adoption_def split: option.splits if_splits)
  with assms show ?thesis by simp
next
  case (Inr x)
  then obtain r where r: "findUnique_adopt k (adopts s) = Some r"
    and s': "snd (admin_delete_adoption (Some k) s)
               = s\<lparr>adopts := delete_where (\<lambda>r. adopt_id r = k) (adopts s)\<rparr>"
    by (auto simp: admin_delete_adoption_def split: option.splits if_splits)
  from r have rmem: "r \<in> set (adopts s)" "adopt_id r = k"
    using findUnique_adopt_mem by auto
  from r assms(2) have st: "adopt_status r \<noteq> ''approved''"
    by simp
  have "\<forall>x\<in>set (adopts s). adopt_id x = k \<longrightarrow> adopt_status x \<noteq> ''approved''"
  proof (intro ballI impI)
    fix x assume "x \<in> set (adopts s)" "adopt_id x = k"
    with rmem assms have "x = r"
      by (auto simp: store_inv_def intro: distinct_map_eq)
    with st show "adopt_status x \<noteq> ''approved''"
      by simp
  qed
  with assms(1) show ?thesis
    unfolding s' by (rule store_inv_delete_request)
qed

lemma count_where_map_cong:
  "(\<And>x. x \<in> set xs \<Longrightarrow> P (g x) = Q x) \<Longrightarrow> count_where P (map g xs) = count_where Q xs"
  by (induction xs) (auto simp: count_where_def)

lemma count_where_map_le:
  "(\<And>x. x \<in> set xs \<Longrightarrow> P (g x) \<Longrightarrow> Q x) \<Longrightarrow> count_where P (map g xs) \<le> count_where Q xs"
  by (induction xs) (auto simp: count_where_def)

lemma count_where_key:
  "distinct (map f xs) \<Longrightarrow> x \<in> set xs \<Longrightarrow> count_where (\<lambda>r. f r = f x) xs = 1"
  by (induction xs) (auto simp: count_where_def filter_empty_conv image_iff)

lemma workflow_ok_pending_le:
  "workflow_ok st n m \<Longrightarrow> m' \<le> m \<Longrightarrow> workflow_ok st n m'"
  by (auto simp: workflow_ok_def)

lemma store_inv_decide:
  assumes inv: "store_inv s"
    and st: "st \<in> set [''approved'', ''rejected'']"
    and pend: "case findUnique_adopt k (adopts s) of
                 None \<Rightarrow> True | Some r \<Rightarrow> adopt_status r = ''pending''"
  shows "store_inv (snd (decide (Some k) st c s))"
proof (cases "findUnique_adopt k (adopts s)")
  case None
  then have "snd (decide (Some k) st c s) = s"
    by (simp add: decide_def)
  with inv show ?thesis by simp
next
  case (Some A)
  with pend have Apend: "adopt_status A = ''pending''"
    by simp
  from Some have Amem: "A \<in> set (adopts s)" "adopt_id A = k"
    using findUnique_adopt_mem by auto
  let ?x = "adopt_animalid A"
  have only: "r = A" if "r \<in> set (adopts s)" "adopt_id r = k" for r
    using that Amem inv by (auto simp: store_inv_def intro: distinct_map_eq)
  show ?thesis
  proof (cases "findUnique_animal ?x (animals s)")
    case None
    with Some st have "snd (decide (Some k) st c s) = s"
      by (auto simp: decide_def decide_transaction_def Let_def)
    with inv show ?thesis by simp
  next
    case X: (Some X)
    then have Xmem: "X \<in> set (animals s)" "animal_id X = ?x"
      using findUnique_animal_mem by auto
    have "requests_with ''pending'' ?x s \<noteq> 0"
      using Amem Apend by (auto simp: requests_with_def count_where_0_iff)
    with inv Xmem have Xav: "animal_status X = ''available''"
      and none: "requests_with ''approved'' ?x s = 0"
      by (auto simp: store_inv_def workflow_ok_def)
    from st consider "st = ''approved''" | "st = ''rejected''"
      by auto
    then show ?thesis
    proof cases
      case 1
      let ?h = "\<lambda>r. if adopt_id r = k
                    then r\<lparr>adopt_status := ''approved'', adopt_user := or_null c\<rparr>
                    else if adopt_animalid r = ?x \<and> adopt_status r = ''pending''
                    then r\<lparr>adopt_status := ''rejected'', adopt_user := Some auto_reject_comment\<rparr>
                    else r"
      let ?g = "\<lambda>a. if animal_id a = ?x then a\<lparr>animal_status := ''adopted''\<rparr> else a"
      have s': "snd (decide (Some k) st c s)
                  = s\<lparr>animals := map ?g (animals s), adopts := map ?h (adopts s)\<rparr>"
        by (simp add: 1 decide_approved [OF Some X] update_where_def)
      have other: "requests_with t y (s\<lparr>animals := map ?g (animals s), adopts := map ?h (adopts s)\<rparr>)
                     = requests_with t y s" if "y \<noteq> ?x" for t y
      proof -
        have "(adopt_animalid (?h r) = y \<and> adopt_status (?h r) = t)
                = (adopt_animalid r = y \<and> adopt_status r = t)" if r: "r \<in> set (adopts s)" for r
        proof (cases "adopt_id r = k")
          case True
          with r have "r = A"
            by (rule only)
          with \<open>y \<noteq> ?x\<close> True show ?thesis
            by auto
        next
          case False
          with \<open>y \<noteq> ?x\<close> show ?thesis
            by auto
        qed
        then show ?thesis
          unfolding requests_with_def by (simp add: count_where_map_cong)
      qed
      have pending0: "requests_with ''pending'' ?x
                        (s\<lparr>animals := map ?g (animals s), adopts := map ?h (adopts s)\<rparr>) = 0"
        by (auto simp: requests_with_def count_where_0_iff)
      have "count_where (\<lambda>r. adopt_animalid r = ?x \<and> adopt_status r = ''approved'')
              (map ?h (adopts s)) = count_where (\<lambda>r. adopt_id r = adopt_id A) (adopts s)"
      proof (rule count_where_map_cong)
        fix r assume r: "r \<in> set (adopts s)"
        from none r have notapp: "\<not> (adopt_animalid r = ?x \<and> adopt_status r = ''approved'')"
          by (auto simp: requests_with_def count_where_0_iff)
        show "(adopt_animalid (?h r) = ?x \<and> adopt_status (?h r) = ''approved'')
                = (adopt_id r = adopt_id A)"
        proof (cases "adopt_id r = k")
          case True
          with r have "r = A"
            by (rule only)
          then show ?thesis
            by (simp add: Amem)
        next
          case False
          with notapp show ?thesis
            by (simp add: Amem)
        qed
      qed
      also have "\<dots> = 1"
        using inv Amem by (intro count_where_key) (auto simp: store_inv_def)
      finally have approved1: "requests_with ''approved'' ?x
                        (s\<lparr>animals := map ?g (animals s), adopts := map ?h (adopts s)\<rparr>) = 1"
        by (simp add: requests_with_def)
      have bounds: "\<forall>r\<in>set (map ?h (adopts s)).
                      adopt_id r < next_adopt_id s \<and> adopt_animalid r < next_animal_id s"
        using inv by (auto simp: store_inv_def)
      have abounds: "\<forall>a\<in>set (map ?g (animals s)). animal_id a < next_animal_id s"
        using inv by (auto simp: store_inv_def)
      have ok: "\<forall>a\<in>set (map ?g (animals s)).
                  workflow_ok (animal_status a)
                    (requests_with ''approved'' (animal_id a)
                       (s\<lparr>animals := map ?g (animals s), adopts := map ?h (adopts s)\<rparr>))
                    (requests_with ''pending'' (animal_id a)
                       (s\<lparr>animals := map ?g (animals s), adopts := map ?h (adopts s)\<rparr>))"
      proof
        fix a assume "a \<in> set (map ?g (animals s))"
        then obtain b where b: "b \<in> set (animals s)" "a = ?g b"
          by auto
        show "workflow_ok (animal_status a)
                    (requests_with ''approved'' (animal_id a)
                       (s\<lparr>animals := map ?g (animals s), adopts := map ?h (adopts s)\<rparr>))
                    (requests_with ''pending'' (animal_id a)
                       (s\<lparr>animals := map ?g (animals s), adopts := map ?h (adopts s)\<rparr>))"
        proof (cases "animal_id b = ?x")
          case True
          with b have "animal_id a = ?x" "animal_status a = ''adopted''"
            by simp_all
          then show ?thesis
            by (simp add: approved1 pending0 workflow_ok_def)
        next
          case False
          with b have "a = b"
            by simp
          with b False inv show ?thesis
            by (simp add: other store_inv_def)
        qed
      qed
      let ?s' = "s\<lparr>animals := map ?g (animals s), adopts := map ?h (adopts s)\<rparr>"
      have "map adopt_id (adopts ?s') = map adopt_id (adopts s)"
        by simp
      moreover have "distinct (map adopt_id (adopts s))"
        using inv by (simp add: store_inv_def)
      ultimately have c1: "distinct (map adopt_id (adopts ?s'))"
        by metis
      have "map animal_id (animals ?s') = map animal_id (animals s)"
        by simp
      moreover have "distinct (map animal_id (animals s))"
        using inv by (simp add: store_inv_def)
      ultimately have c2: "distinct (map animal_id (animals ?s'))"
        by metis
      have c3: "\<forall>r\<in>set (adopts ?s').
                  adopt_id r < next_adopt_id ?s' \<and> adopt_animalid r < next_animal_id ?s'"
        using bounds by simp
      have c4: "\<forall>a\<in>set (animals ?s'). animal_id a < next_animal_id ?s'"
        using abounds by simp
      have c5: "\<forall>a\<in>set (animals ?s').
        workflow_ok (animal_status a) (requests_with ''approved'' (animal_id a) ?s')
          (requests_with ''pending'' (animal_id a) ?s')"
        using ok by simp
      show ?thesis
        unfolding s' store_inv_def using c1 c2 c3 c4 c5 by blast
    next
      case 2
      let ?h = "\<lambda>r. if adopt_id r = k
                    then r\<lparr>adopt_status := ''rejected'', adopt_user := or_null c\<rparr> else r"
      have s': "snd (decide (Some k) st c s) = s\<lparr>adopts := map ?h (adopts s)\<rparr>"
        using Xav by (simp add: 2 decide_rejected [OF Some X] update_where_def)
      have approved: "requests_with ''approved'' y (s\<lparr>adopts := map ?h (adopts s)\<rparr>)
                     = requests_with ''approved'' y s" for y
      proof -
        have "(adopt_animalid (?h r) = y \<and> adopt_status (?h r) = ''approved'')
                = (adopt_animalid r = y \<and> adopt_status r = ''approved'')"
          if r: "r \<in> set (adopts s)" for r
        proof (cases "adopt_id r = k")
          case True
          with r have "r = A"
            by (rule only)
          with Apend True show ?thesis
            by simp
        next
          case False
          then show ?thesis
            by simp
        qed
        then show ?thesis
          unfolding requests_with_def by (simp add: count_where_map_cong)
      qed
      have pending: "requests_with ''pending'' y (s\<lparr>adopts := map ?h (adopts s)\<rparr>)
                     \<le> requests_with ''pending'' y s" for y
        unfolding requests_with_def
        by (auto intro!: count_where_map_le split: if_splits)
      have bounds: "\<forall>r\<in>set (map ?h (adopts s)).
                      adopt_id r < next_adopt_id s \<and> adopt_animalid r < next_animal_id s"
        using inv by (auto simp: store_inv_def)
      have ok: "\<forall>a\<in>set (animals s).
                  workflow_ok (animal_status a)
                    (requests_with ''approved'' (animal_id a) (s\<lparr>adopts := map ?h (adopts s)\<rparr>))
                    (requests_with ''pending'' (animal_id a) (s\<lparr>adopts := map ?h (adopts s)\<rparr>))"
        using inv pending
        by (auto simp: store_inv_def approved intro: workflow_ok_pending_le)
      let ?s' = "s\<lparr>adopts := map ?h (adopts s)\<rparr>"
      have "map adopt_id (adopts ?s') = map adopt_id (adopts s)"
        by simp
      moreover have "distinct (map adopt_id (adopts s))"
        using inv by (simp add: store_inv_def)
      ultimately have c1: "distinct (map adopt_id (adopts ?s'))"
        by metis
      have c2: "distinct (map animal_id (animals ?s'))"
        using inv by (simp add: store_inv_def)
      have c3: "\<forall>r\<in>set (adopts ?s').
                  adopt_id r < next_adopt_id ?s' \<and> adopt_animalid r < next_animal_id ?s'"
        using bounds by simp
      have c4: "\<forall>a\<in>set (animals ?s'). animal_id a < next_animal_id ?s'"
        using inv by (simp add: store_inv_def)
      have c5: "\<forall>a\<in>set (animals ?s').
        workflow_ok (animal_status a) (requests_with ''approved'' (animal_id a) ?s')
          (requests_with ''pending'' (animal_id a) ?s')"
        using ok by simp
      show ?thesis
        unfolding s' store_inv_def using c1 c2 c3 c4 c5 by blast
    qed
  qed
qed

lemma store_inv_step: "store_inv s \<Longrightarrow> guarded s o' \<Longrightarrow> store_inv (step o' s)"
proof (cases o')
  case (Decide k st c)
  assume "store_inv s" "guarded s o'"
  with Decide show ?thesis
    using store_inv_decide [of s st k c] by simp
qed (simp_all add: store_inv_createAnimal store_inv_updateAnimal store_inv_deleteAnimal
       store_inv_create_adoption store_inv_cancel store_inv_admin_delete)

lemma reachable_guarded_store_inv: "reachable_guarded s \<Longrightarrow> store_inv s"
  by (induction rule: reachable_guarded.induct) (simp_all add: store_inv_init store_inv_step)

lemma store_inv_adopted_iff: "store_inv s \<Longrightarrow> adopted_iff_one_approved s"
  by (auto simp: store_inv_def adopted_iff_one_approved_def list_all_iff workflow_ok_def)

lemma run_Cons: "run (o' # os) s = run os (step o' s)"
  by (simp add: run_def)

lemma reachable_run: "reachable s \<Longrightarrow> reachable (run os s)"
  by (induction os arbitrary: s) (simp_all add: run_def reachable_step)

lemma reachable_guarded_run:
  "reachable_guarded s \<Longrightarrow> all_guarded os s \<Longrightarrow> reachable_guarded (run os s)"
proof (induction os arbitrary: s)
  case Nil
  then show ?case by (simp add: run_def)
next
  case (Cons o' os)
  then show ?case by (simp add: run_Cons guarded_step)
qed

text \<open>
  Claim C2, as the code has it. In every store reachable from the empty store by the
  guarded operations (creating, updating without setting the status and deleting an
  animal, creating and cancelling a request, the admin's deletion of a request that is
  not approved, and a decision approved or rejected on a request that is pending), an
  animal's status is adopted if and only if exactly one request that references it is
  approved.
\<close>

theorem guarded_workflow_invariant:
  "reachable_guarded s \<Longrightarrow> adopted_iff_one_approved s"
  by (simp add: reachable_guarded_store_inv store_inv_adopted_iff)

theorem guarded_workflow_invariant_witness:
  "reachable_guarded (run (setup_two_pending @ [Decide 1 ''approved'' None]) init_db) \<and>
   map animal_status (animals (run (setup_two_pending @ [Decide 1 ''approved'' None]) init_db))
     = [''adopted''] \<and>
   map adopt_status (adopts (run (setup_two_pending @ [Decide 1 ''approved'' None]) init_db))
     = [''approved'', ''rejected''] \<and>
   adopted_iff_one_approved (run (setup_two_pending @ [Decide 1 ''approved'' None]) init_db)"
proof -
  have g: "all_guarded (setup_two_pending @ [Decide 1 ''approved'' None]) init_db"
    by code_simp
  have r: "reachable_guarded (run (setup_two_pending @ [Decide 1 ''approved'' None]) init_db)"
    using guarded_init g by (rule reachable_guarded_run)
  have e1: "map animal_status (animals (run (setup_two_pending @ [Decide 1 ''approved'' None]) init_db))
     = [''adopted'']"
    by code_simp
  have e2: "map adopt_status (adopts (run (setup_two_pending @ [Decide 1 ''approved'' None]) init_db))
     = [''approved'', ''rejected'']"
    by code_simp
  from r e1 e2 guarded_workflow_invariant [OF r] show ?thesis
    by simp
qed

text \<open>
  Claim C2 as stated, over all operations, fails: the admin creates an animal and marks
  it as adopted; the animal is adopted and has no request at all.
\<close>

theorem adopted_iff_one_approved_counterexample:
  "reachable (run [CreateAnimal rex, MarkAsAdopted 1] init_db) \<and>
   map animal_status (animals (run [CreateAnimal rex, MarkAsAdopted 1] init_db)) = [''adopted''] \<and>
   adopts (run [CreateAnimal rex, MarkAsAdopted 1] init_db) = [] \<and>
   \<not> adopted_iff_one_approved (run [CreateAnimal rex, MarkAsAdopted 1] init_db)"
proof -
  have r: "reachable (run [CreateAnimal rex, MarkAsAdopted 1] init_db)"
    using reachable_init by (rule reachable_run)
  have e1: "map animal_status (animals (run [CreateAnimal rex, MarkAsAdopted 1] init_db)) = [''adopted'']"
    by code_simp
  have e2: "adopts (run [CreateAnimal rex, MarkAsAdopted 1] init_db) = []"
    by code_simp
  have e3: "\<not> adopted_iff_one_approved (run [CreateAnimal rex, MarkAsAdopted 1] init_db)"
    by code_simp
  from r e1 e2 e3 show ?thesis
    by simp
qed

text \<open>
  Each of the other operations left out of the guarded workflow breaks the invariant
  too, starting from the store in which request 1 was approved: a second approval, the
  deletion of the approved request, marking the animal available, and rejecting the
  approved request.
\<close>

lemma unguarded_operations_break_invariant:
  "\<not> adopted_iff_one_approved (run [Decide 2 ''approved'' None] after_approval)"
  "\<not> adopted_iff_one_approved (run [AdminDeleteAdoption 1] after_approval)"
  "\<not> adopted_iff_one_approved (run [MarkAsAvailable 1] after_approval)"
  "\<not> adopted_iff_one_approved (run [Decide 1 ''rejected'' None] after_approval)"
  "\<not> adopted_iff_one_approved (run [UpdateAnimal 1 (status_only ''available'')] after_approval)"
  by code_simp+

end
